theory Spec2Isabelle
  imports Main "HOL-Library.Char_ord" "HOL-Library.List_Lexorder" "HOL-Library.AList"
    "HOL-Library.Multiset"
begin

section \<open>The environment store of go-rriclient (internal/env/environment.go)\<close>

text \<open>
  The package keeps one encrypted record file per environment in a store directory,
  together with an ordering file \<^verbatim>\<open>env-order\<close>. The Go code talks to the operating
  system, to the jcrypt and json codecs and to a console. Below, the operating system is
  a state (\<open>world\<close>) that every function takes and returns; the codecs are parameters
  (\<open>codec\<close>); errors are values.
\<close>

subsection \<open>Paths\<close>

text \<open>
  A cleaned, rooted path is the list of its elements below the root. \<open>Reader.dir\<close> is
  made by \<^verbatim>\<open>filepath.Join\<close> in \<^verbatim>\<open>NewReader\<close>, so it is such a path.
\<close>

type_synonym path = "string list"

text \<open>The elements of a string between its separators \<^verbatim>\<open>/\<close>.\<close>

fun splitSlash :: "string \<Rightarrow> string list" where
  "splitSlash [] = [[]]"
| "splitSlash (c # cs) =
     (if c = CHR ''/'' then [] # splitSlash cs
      else (case splitSlash cs of [] \<Rightarrow> [[c]] | e # es \<Rightarrow> (c # e) # es))"

text \<open>
  \<^verbatim>\<open>filepath.Clean\<close> on a rooted path, element by element: empty elements and
  \<^verbatim>\<open>.\<close> are dropped, \<^verbatim>\<open>..\<close> removes the element before it (and is dropped at the
  root), every other element is kept.
\<close>

fun cleanElems :: "path \<Rightarrow> string list \<Rightarrow> path" where
  "cleanElems acc [] = acc"
| "cleanElems acc (x # xs) =
     (if x = [] \<or> x = ''.'' then cleanElems acc xs
      else if x = ''..'' then cleanElems (butlast acc) xs
      else cleanElems (acc @ [x]) xs)"

text \<open>
  \<^verbatim>\<open>filepath.Join(dir, s)\<close> for a non-empty \<open>s\<close> is \<^verbatim>\<open>Clean(dir + "/" + s)\<close>. The
  directory is clean already, so cleaning goes on from its elements.
\<close>

definition Join :: "path \<Rightarrow> string \<Rightarrow> path" where
  "Join d s = cleanElems d (splitSlash s)"

text \<open>\<^verbatim>\<open>strings.HasSuffix\<close>.\<close>

definition HasSuffix :: "string \<Rightarrow> string \<Rightarrow> bool" where
  "HasSuffix s suf = (length suf \<le> length s \<and> drop (length s - length suf) s = suf)"

subsection \<open>Errors, the file system and the console\<close>

text \<open>
  \<open>Errorf f args\<close> is an error made by \<^verbatim>\<open>fmt.Errorf\<close> in this package, kept as its
  format and arguments; \<open>ErrNotExist p\<close> is an operating-system error for which
  \<^verbatim>\<open>os.IsNotExist\<close> holds; \<open>Ext m\<close> is any other error of the operating system or of
  a collaborator, with its message.
\<close>

datatype error = Errorf string "string list" | ErrNotExist path | Ext string

fun IsNotExist :: "error \<Rightarrow> bool" where
  "IsNotExist (ErrNotExist p) = True"
| "IsNotExist e = False"

datatype node = File string | Dir

datatype syscall =
    Stat path
  | MkdirAll path
  | ReadFile path
  | WriteFile path string
  | ReadDir path
  | Remove path

text \<open>An argument of a console line: a string, or the text \<^verbatim>\<open>err.Error()\<close> of an error.\<close>

datatype arg = Str string | ErrorText error

text \<open>
  What a call does to the outside, in the order it happens: a system call (attempted,
  whether it succeeds or not), a line printed by \<^verbatim>\<open>console.Printlnf\<close> (format and
  arguments), a call of the capture handler.
\<close>

datatype event = Call syscall | Printlnf string "arg list" | Enter string

text \<open>
  The world: the file system as an association list from paths to nodes (the first entry
  of a path counts), the failures the operating system injects (permissions, full disk:
  \<open>fault w c = Some e\<close> makes the call \<open>c\<close> fail with \<open>e\<close> and change nothing), and
  the log of events so far.
\<close>

record world =
  nodes :: "(path \<times> node) list"
  fault :: "syscall \<Rightarrow> error option"
  log :: "event list"

definition logEvent :: "event \<Rightarrow> world \<Rightarrow> world" where
  "logEvent ev w = w\<lparr>log := log w @ [ev]\<rparr>"

definition isDirAt :: "(path \<times> node) list \<Rightarrow> path \<Rightarrow> bool" where
  "isDirAt fs p = (p = [] \<or> map_of fs p = Some Dir)"

record fileInfo =
  Name :: string
  IsDir :: bool

text \<open>\<^verbatim>\<open>os.Stat\<close>: whether the node at the path is a directory.\<close>

definition os_Stat :: "path \<Rightarrow> world \<Rightarrow> (error + bool) \<times> world" where
  "os_Stat p w =
     (case fault w (Stat p) of
        Some e \<Rightarrow> Inl e
      | None \<Rightarrow> (case map_of (nodes w) p of
                   None \<Rightarrow> if p = [] then Inr True else Inl (ErrNotExist p)
                 | Some n \<Rightarrow> Inr (n = Dir)),
      logEvent (Call (Stat p)) w)"

text \<open>
  \<^verbatim>\<open>os.MkdirAll\<close>: every missing directory on the way to the path is created; a file on
  the way is an error.
\<close>

fun mkdirs :: "path \<Rightarrow> string list \<Rightarrow> (path \<times> node) list \<Rightarrow> error + (path \<times> node) list" where
  "mkdirs q [] fs = Inr fs"
| "mkdirs q (x # xs) fs =
     (case map_of fs (q @ [x]) of
        Some (File d) \<Rightarrow> Inl (Ext ''not a directory'')
      | Some Dir \<Rightarrow> mkdirs (q @ [x]) xs fs
      | None \<Rightarrow> mkdirs (q @ [x]) xs (fs @ [(q @ [x], Dir)]))"

definition os_MkdirAll :: "path \<Rightarrow> world \<Rightarrow> error option \<times> world" where
  "os_MkdirAll p w =
     (let w' = logEvent (Call (MkdirAll p)) w in
      case fault w (MkdirAll p) of
        Some e \<Rightarrow> (Some e, w')
      | None \<Rightarrow> (case mkdirs [] p (nodes w) of
                   Inl e \<Rightarrow> (Some e, w')
                 | Inr fs \<Rightarrow> (None, w'\<lparr>nodes := fs\<rparr>)))"

text \<open>\<^verbatim>\<open>ioutil.ReadFile\<close>.\<close>

definition os_ReadFile :: "path \<Rightarrow> world \<Rightarrow> (error + string) \<times> world" where
  "os_ReadFile p w =
     (case fault w (ReadFile p) of
        Some e \<Rightarrow> Inl e
      | None \<Rightarrow> (case map_of (nodes w) p of
                   None \<Rightarrow> Inl (ErrNotExist p)
                 | Some Dir \<Rightarrow> Inl (Ext ''is a directory'')
                 | Some (File d) \<Rightarrow> Inr d),
      logEvent (Call (ReadFile p)) w)"

text \<open>
  \<^verbatim>\<open>ioutil.WriteFile\<close>: creates or replaces the file; the directory it lies in must
  exist.
\<close>

definition os_WriteFile :: "path \<Rightarrow> string \<Rightarrow> world \<Rightarrow> error option \<times> world" where
  "os_WriteFile p d w =
     (let w' = logEvent (Call (WriteFile p d)) w in
      case fault w (WriteFile p d) of
        Some e \<Rightarrow> (Some e, w')
      | None \<Rightarrow>
         (if p = [] \<or> map_of (nodes w) p = Some Dir then (Some (Ext ''is a directory''), w')
          else if \<not> isDirAt (nodes w) (butlast p) then (Some (ErrNotExist p), w')
          else (None, w'\<lparr>nodes := AList.update p (File d) (nodes w)\<rparr>)))"

text \<open>
  \<^verbatim>\<open>ioutil.ReadDir\<close>: the entries of the directory, sorted by file name.
\<close>

definition children :: "(path \<times> node) list \<Rightarrow> path \<Rightarrow> fileInfo list" where
  "children fs d =
     map (\<lambda>(p, n). \<lparr>Name = last p, IsDir = (n = Dir)\<rparr>)
       (filter (\<lambda>(p, n). p \<noteq> [] \<and> butlast p = d) fs)"

definition os_ReadDir :: "path \<Rightarrow> world \<Rightarrow> (error + fileInfo list) \<times> world" where
  "os_ReadDir p w =
     (case fault w (ReadDir p) of
        Some e \<Rightarrow> Inl e
      | None \<Rightarrow>
         (if isDirAt (nodes w) p then Inr (sort_key Name (children (nodes w) p))
          else if map_of (nodes w) p = None then Inl (ErrNotExist p)
          else Inl (Ext ''not a directory'')),
      logEvent (Call (ReadDir p)) w)"

text \<open>\<^verbatim>\<open>os.Remove\<close>: removes a file, or a directory that is empty.\<close>

definition os_Remove :: "path \<Rightarrow> world \<Rightarrow> error option \<times> world" where
  "os_Remove p w =
     (let w' = logEvent (Call (Remove p)) w in
      case fault w (Remove p) of
        Some e \<Rightarrow> (Some e, w')
      | None \<Rightarrow> (case map_of (nodes w) p of
                   None \<Rightarrow> (Some (ErrNotExist p), w')
                 | Some (File d) \<Rightarrow> (None, w'\<lparr>nodes := AList.delete p (nodes w)\<rparr>)
                 | Some Dir \<Rightarrow>
                     if children (nodes w) p = []
                     then (None, w'\<lparr>nodes := AList.delete p (nodes w)\<rparr>)
                     else (Some (Ext ''directory not empty''), w')))"

subsection \<open>The collaborators\<close>

text \<open>
  \<^verbatim>\<open>envOrder\<close>, the ordering metadata. A Go slice can be \<^verbatim>\<open>nil\<close>: \<open>Order = None\<close>.
\<close>

record envOrder =
  Fixed :: bool
  Order :: "string list option"

text \<open>
  What calling a \<^verbatim>\<open>jcrypt.KeySource\<close> returns: the key or an error.
\<close>

type_synonym keySource = "error + string"

text \<open>
  The codecs are outside this package. \<open>jsonEncode\<close> and \<open>jsonDecode\<close> stand for
  \<^verbatim>\<open>json.Marshal\<close> and \<^verbatim>\<open>json.Unmarshal\<close> on an \<^verbatim>\<open>envOrder\<close>; \<open>jcryptEncode\<close> and
  \<open>jcryptDecode\<close> for what jcrypt does between the record and the bytes of its file.
  Decoding fills the caller's value in place, so it returns the value together with the
  error.
\<close>

record 'v codec =
  jsonEncode :: "envOrder \<Rightarrow> error + string"
  jsonDecode :: "string \<Rightarrow> error + envOrder"
  jcryptEncode :: "keySource \<Rightarrow> 'v \<Rightarrow> error + string"
  jcryptDecode :: "keySource \<Rightarrow> string \<Rightarrow> 'v \<Rightarrow> error option \<times> 'v"

text \<open>\<^verbatim>\<open>json.Unmarshal\<close> rejects empty input, whatever the target.\<close>

definition json_Unmarshal :: "'v codec \<Rightarrow> string \<Rightarrow> error + envOrder" where
  "json_Unmarshal c orderData =
     (if orderData = [] then Inl (Ext ''unexpected end of JSON input'')
      else jsonDecode c orderData)"

text \<open>\<^verbatim>\<open>jcrypt.MarshalToFile\<close>: encode, then write the file.\<close>

definition jcrypt_MarshalToFile ::
  "'v codec \<Rightarrow> path \<Rightarrow> 'v \<Rightarrow> keySource \<Rightarrow> world \<Rightarrow> error option \<times> world" where
  "jcrypt_MarshalToFile c file env keySource w =
     (case jcryptEncode c keySource env of
        Inl e \<Rightarrow> (Some e, w)
      | Inr d \<Rightarrow> os_WriteFile file d w)"

text \<open>\<^verbatim>\<open>jcrypt.UnmarshalFromFile\<close>: read the file, then decode into the value.\<close>

definition jcrypt_UnmarshalFromFile ::
  "'v codec \<Rightarrow> path \<Rightarrow> 'v \<Rightarrow> keySource \<Rightarrow> world \<Rightarrow> (error option \<times> 'v) \<times> world" where
  "jcrypt_UnmarshalFromFile c file env keySource w =
     (case os_ReadFile file w of
        (Inl e, w') \<Rightarrow> ((Some e, env), w')
      | (Inr d, w') \<Rightarrow> (jcryptDecode c keySource d env, w'))"

text \<open>
  \<^verbatim>\<open>sort.SliceStable\<close> with its \<^verbatim>\<open>less\<close> on the elements: a stable insertion
  sort. An element goes behind every element that is less than it and in front of the
  first one that is not, so elements that \<^verbatim>\<open>less\<close> does not separate keep their order.
\<close>

fun insertStable :: "('a \<Rightarrow> 'a \<Rightarrow> bool) \<Rightarrow> 'a \<Rightarrow> 'a list \<Rightarrow> 'a list" where
  "insertStable lessFn x [] = [x]"
| "insertStable lessFn x (y # ys) =
     (if lessFn y x then y # insertStable lessFn x ys else x # y # ys)"

fun SliceStable :: "('a \<Rightarrow> 'a \<Rightarrow> bool) \<Rightarrow> 'a list \<Rightarrow> 'a list" where
  "SliceStable lessFn [] = []"
| "SliceStable lessFn (x # xs) = insertStable lessFn x (SliceStable lessFn xs)"

subsection \<open>The package\<close>

definition envOrderFileName :: string where
  "envOrderFileName = ''env-order''"

definition MaxInt32 :: nat where
  "MaxInt32 = 2147483647"

text \<open>
  \<^verbatim>\<open>Reader\<close>. A handler that is \<^verbatim>\<open>nil\<close> is \<open>None\<close>. The capture handler fills the
  caller's value in place and returns an error or not.
\<close>

type_synonym 'v enterEnvHandler = "string \<Rightarrow> 'v \<Rightarrow> error option \<times> 'v"

record 'v Reader =
  dir :: path
  KeySource :: "keySource option"
  EnterEnvHandler :: "'v enterEnvHandler option"

definition getEnvFilePath :: "'v Reader \<Rightarrow> string \<Rightarrow> path" where
  "getEnvFilePath e envName = Join (dir e) (envName @ ''.json'')"

definition isFile :: "path \<Rightarrow> world \<Rightarrow> (error + bool) \<times> world" where
  "isFile file w =
     (case os_Stat file w of
        (Inl err, w') \<Rightarrow> (if IsNotExist err then Inr False else Inl err, w')
      | (Inr isdir, w') \<Rightarrow> (Inr (\<not> isdir), w'))"

definition readEnvOrder :: "'v Reader \<Rightarrow> 'v codec \<Rightarrow> world \<Rightarrow> (envOrder \<times> error option) \<times> world" where
  "readEnvOrder e c w =
     (case os_ReadFile (Join (dir e) envOrderFileName) w of
        (Inl err, w') \<Rightarrow> ((\<lparr>Fixed = False, Order = Some []\<rparr>, None), w')
      | (Inr orderData, w') \<Rightarrow>
          (case json_Unmarshal c orderData of
             Inl err \<Rightarrow> ((\<lparr>Fixed = False, Order = Some []\<rparr>, None), w')
           | Inr order \<Rightarrow> ((order, None), w')))"

definition writeEnvOrder :: "'v Reader \<Rightarrow> 'v codec \<Rightarrow> envOrder \<Rightarrow> world \<Rightarrow> error option \<times> world" where
  "writeEnvOrder e c order w =
     (case jsonEncode c order of
        Inl err \<Rightarrow> (Some err, w)
      | Inr orderData \<Rightarrow> os_WriteFile (Join (dir e) envOrderFileName) orderData w)"

text \<open>The loop of \<^verbatim>\<open>envOrderBringToFront\<close> over the previous order.\<close>

fun appendOthers :: "string \<Rightarrow> string list \<Rightarrow> string list \<Rightarrow> string list" where
  "appendOthers name newOrder [] = newOrder"
| "appendOthers name newOrder (env # rest) =
     (if env \<noteq> name then appendOthers name (newOrder @ [env]) rest
      else appendOthers name newOrder rest)"

definition normalizeName :: "string \<Rightarrow> string" where
  "normalizeName name = (if \<not> HasSuffix name ''.json'' then name @ ''.json'' else name)"

definition envOrderBringToFront :: "'v Reader \<Rightarrow> 'v codec \<Rightarrow> string \<Rightarrow> world \<Rightarrow> error option \<times> world" where
  "envOrderBringToFront e c name0 w =
     (case readEnvOrder e c w of
        ((order, Some err), w1) \<Rightarrow> (Some err, w1)
      | ((order, None), w1) \<Rightarrow>
          if Fixed order then (None, w1)
          else
            let name = normalizeName name0 in
            (case Order order of
               None \<Rightarrow> writeEnvOrder e c (order\<lparr>Order := Some [name]\<rparr>) w1
             | Some prev \<Rightarrow>
                 writeEnvOrder e c (order\<lparr>Order := Some (appendOthers name [name] prev)\<rparr>) w1))"

text \<open>
  Lines 95 to 103 of \<^verbatim>\<open>createOrReadEnvironment\<close>: the attempt to save a captured
  record, whose failure is only printed.
\<close>

definition saveCaptured :: "'v Reader \<Rightarrow> 'v codec \<Rightarrow> path \<Rightarrow> 'v \<Rightarrow> keySource \<Rightarrow> world \<Rightarrow> world" where
  "saveCaptured e c file env keySource w =
     (case os_MkdirAll (dir e) w of
        (Some err, w1) \<Rightarrow>
          logEvent (Printlnf ''WARNING: failed to save environment: %s'' [ErrorText err]) w1
      | (None, w1) \<Rightarrow>
          (case jcrypt_MarshalToFile c file env keySource w1 of
             (Some err, w2) \<Rightarrow>
               logEvent (Printlnf ''WARNING: failed to save environment: %s'' [ErrorText err]) w2
           | (None, w2) \<Rightarrow> w2))"

text \<open>
  Lines 82 to 85: a \<^verbatim>\<open>nil\<close> key source stands for the one that returns the empty key.
\<close>

definition keySourceOf :: "'v Reader \<Rightarrow> keySource" where
  "keySourceOf e = (case KeySource e of None \<Rightarrow> Inr [] | Some k \<Rightarrow> k)"

definition createOrReadEnvironment ::
  "'v Reader \<Rightarrow> 'v codec \<Rightarrow> string \<Rightarrow> 'v \<Rightarrow> 'v enterEnvHandler option \<Rightarrow> world
     \<Rightarrow> (error option \<times> 'v) \<times> world" where
  "createOrReadEnvironment e c envName env enterEnvHandler w =
     (let file = getEnvFilePath e envName in
      case isFile file w of
        (Inl err, w1) \<Rightarrow> ((Some err, env), w1)
      | (Inr exists, w1) \<Rightarrow>
          let keySource = keySourceOf e in
          if \<not> exists then
            (case enterEnvHandler of
               Some h \<Rightarrow>
                 let w2 = logEvent (Printlnf ''Environment %q does not exist yet, pleaser enter below:''
                                      [Str envName]) w1;
                     w3 = logEvent (Enter envName) w2
                 in (case h envName env of
                       (Some err, env') \<Rightarrow> ((Some err, env'), w3)
                     | (None, env') \<Rightarrow>
                         let w4 = saveCaptured e c file env' keySource w3
                         in ((None, env'), snd (envOrderBringToFront e c envName w4)))
             | None \<Rightarrow> ((Some (Errorf ''environment %q not found'' [envName]), env), w1))
          else
            (case jcrypt_UnmarshalFromFile c file env keySource w1 of
               ((Some err, env'), w2) \<Rightarrow> ((Some err, env'), w2)
             | ((None, env'), w2) \<Rightarrow>
                 ((None, env'), snd (envOrderBringToFront e c envName w2))))"

definition ReadEnvironment ::
  "'v Reader \<Rightarrow> 'v codec \<Rightarrow> string \<Rightarrow> 'v \<Rightarrow> world \<Rightarrow> (error option \<times> 'v) \<times> world" where
  "ReadEnvironment e c envName env w = createOrReadEnvironment e c envName env None w"

definition CreateOrReadEnvironment ::
  "'v Reader \<Rightarrow> 'v codec \<Rightarrow> string \<Rightarrow> 'v \<Rightarrow> world \<Rightarrow> (error option \<times> 'v) \<times> world" where
  "CreateOrReadEnvironment e c envName env w =
     createOrReadEnvironment e c envName env (EnterEnvHandler e) w"

text \<open>The loop that fills \<^verbatim>\<open>orderMap\<close>: a later index of a name replaces an earlier one.\<close>

fun fillOrderMap :: "nat \<Rightarrow> string list \<Rightarrow> (string \<rightharpoonup> nat) \<Rightarrow> (string \<rightharpoonup> nat)" where
  "fillOrderMap i [] orderMap = orderMap"
| "fillOrderMap i (name # rest) orderMap = fillOrderMap (Suc i) rest (orderMap(name \<mapsto> i))"

text \<open>The \<^verbatim>\<open>less\<close> given to \<^verbatim>\<open>sort.SliceStable\<close>.\<close>

definition orderVal :: "(string \<rightharpoonup> nat) \<Rightarrow> fileInfo \<Rightarrow> nat" where
  "orderVal orderMap fi = (case orderMap (Name fi) of Some v \<Rightarrow> v | None \<Rightarrow> MaxInt32)"

definition orderLess :: "(string \<rightharpoonup> nat) \<Rightarrow> fileInfo \<Rightarrow> fileInfo \<Rightarrow> bool" where
  "orderLess orderMap fi fj = (orderVal orderMap fi < orderVal orderMap fj)"

definition isEnvFile :: "fileInfo \<Rightarrow> bool" where
  "isEnvFile fi = (\<not> IsDir fi \<and> HasSuffix (Name fi) ''.json'' \<and> Name fi \<noteq> envOrderFileName)"

definition GetEnvironmentFiles ::
  "'v Reader \<Rightarrow> 'v codec \<Rightarrow> world \<Rightarrow> (error + fileInfo list) \<times> world" where
  "GetEnvironmentFiles e c w =
     (case os_ReadDir (dir e) w of
        (Inl err, w1) \<Rightarrow> (if IsNotExist err then Inr [] else Inl err, w1)
      | (Inr files, w1) \<Rightarrow>
          let envFiles = filter isEnvFile files in
          (case readEnvOrder e c w1 of
             ((order, _), w2) \<Rightarrow>
               (case Order order of
                  None \<Rightarrow> (Inr envFiles, w2)
                | Some ord \<Rightarrow>
                    if length ord > 0
                    then (Inr (SliceStable (orderLess (fillOrderMap 0 ord Map.empty)) envFiles), w2)
                    else (Inr envFiles, w2))))"

definition DeleteEnvironment :: "'v Reader \<Rightarrow> string \<Rightarrow> world \<Rightarrow> error option \<times> world" where
  "DeleteEnvironment e envName w =
     (let file = getEnvFilePath e envName in
      case isFile file w of
        (Inl err, w1) \<Rightarrow> (Some err, w1)
      | (Inr exists, w1) \<Rightarrow>
          if \<not> exists then (Some (Errorf ''environment %q does not exist'' [envName]), w1)
          else os_Remove file w1)"

subsection \<open>Notions used in the statements\<close>

text \<open>The entries of an order list; a \<^verbatim>\<open>nil\<close> list has none.\<close>

definition prevOrder :: "envOrder \<Rightarrow> string list" where
  "prevOrder order = (case Order order of None \<Rightarrow> [] | Some prev \<Rightarrow> prev)"

text \<open>The path of the ordering file.\<close>

abbreviation orderPath :: "'v Reader \<Rightarrow> path" where
  "orderPath e \<equiv> Join (dir e) envOrderFileName"

text \<open>
  The world once a missing record has been looked for, the prompt printed and the
  capture handler called: three events more, and the same files.
\<close>

definition asked :: "'v Reader \<Rightarrow> string \<Rightarrow> world \<Rightarrow> world" where
  "asked e envName w =
     w\<lparr>log := log w @
        [Call (Stat (getEnvFilePath e envName)),
         Printlnf ''Environment %q does not exist yet, pleaser enter below:'' [Str envName],
         Enter envName]\<rparr>"

text \<open>The line printed when a captured record could not be saved.\<close>

definition warning :: "error \<Rightarrow> event" where
  "warning err = Printlnf ''WARNING: failed to save environment: %s'' [ErrorText err]"

text \<open>The metadata with a name moved to the front of its order list.\<close>

definition moved :: "string \<Rightarrow> envOrder \<Rightarrow> envOrder" where
  "moved name order =
     order\<lparr>Order := Some (normalizeName name #
                           filter (\<lambda>env. env \<noteq> normalizeName name) (prevOrder order))\<rparr>"

text \<open>What the listing does with the record files, given the entries of the order list.\<close>

definition ordered :: "string list \<Rightarrow> fileInfo list \<Rightarrow> fileInfo list" where
  "ordered ord envFiles =
     (if ord = [] then envFiles
      else SliceStable (orderLess (fillOrderMap 0 ord Map.empty)) envFiles)"

subsection \<open>A small store, for concrete runs\<close>

text \<open>
  Records are strings here and jcrypt keeps them as they are. The json codec writes an
  \<^verbatim>\<open>envOrder\<close> as \<^verbatim>\<open>json.Marshal\<close> does for plain names, and reads back the documents
  listed in \<open>exDocs\<close>; everything else is not json for it.
\<close>

fun commaSep :: "string list \<Rightarrow> string" where
  "commaSep [] = []"
| "commaSep [x] = x"
| "commaSep (x # y # ys) = x @ '','' @ commaSep (y # ys)"

definition renderOrder :: "envOrder \<Rightarrow> string" where
  \<open>renderOrder order =
     ''{"fixed":'' @ (if Fixed order then ''true'' else ''false'') @ '',"order":'' @
     (case Order order of
        None \<Rightarrow> ''null''
      | Some names \<Rightarrow> ''['' @ commaSep (map (\<lambda>n. ''"'' @ n @ ''"'') names) @ '']'') @ ''}''\<close>

definition exDocs :: "envOrder list" where
  "exDocs =
     [\<lparr>Fixed = False, Order = Some [''B.json'', ''A.json'']\<rparr>,
      \<lparr>Fixed = False, Order = Some [''A.json'', ''B.json'']\<rparr>,
      \<lparr>Fixed = True, Order = Some [''B.json'', ''A.json'']\<rparr>,
      \<lparr>Fixed = False, Order = Some [''x.json'', ''x.json'']\<rparr>,
      \<lparr>Fixed = False, Order = Some [''y.json'', ''x.json'', ''x.json'']\<rparr>,
      \<lparr>Fixed = False, Order = Some [''foo.json'']\<rparr>]"

definition exCodec :: "string codec" where
  "exCodec =
     \<lparr>jsonEncode = (\<lambda>order. Inr (renderOrder order)),
      jsonDecode = (\<lambda>d. case find (\<lambda>order. renderOrder order = d) exDocs of
                          Some order \<Rightarrow> Inr order
                        | None \<Rightarrow> Inl (Ext ''invalid character'')),
      jcryptEncode = (\<lambda>k env. Inr env),
      jcryptDecode = (\<lambda>k d env. (None, d))\<rparr>"

definition exReader :: "string Reader" where
  "exReader =
     \<lparr>dir = [''rri''], KeySource = None,
      EnterEnvHandler = Some (\<lambda>envName env. (None, ''captured''))\<rparr>"

text \<open>An empty file system, and one that holds the store directory only.\<close>

definition exEmpty :: world where
  "exEmpty = \<lparr>nodes = [], fault = (\<lambda>c. None), log = []\<rparr>"

definition exDir :: world where
  "exDir = \<lparr>nodes = [([''rri''], Dir)], fault = (\<lambda>c. None), log = []\<rparr>"

text \<open>
  A store with the records A, B and C and the ordering file given.
\<close>

definition exStore :: "string \<Rightarrow> world" where
  "exStore orderData =
     \<lparr>nodes = [([''rri''], Dir),
               ([''rri'', ''C.json''], File ''c''),
               ([''rri'', ''env-order''], File orderData),
               ([''rri'', ''B.json''], File ''b''),
               ([''rri'', ''A.json''], File ''a'')],
      fault = (\<lambda>c. None), log = []\<rparr>"

definition exOrderBA :: string where
  \<open>exOrderBA = ''{"fixed":false,"order":["B.json","A.json"]}''\<close>

definition exOrderAB :: string where
  \<open>exOrderAB = ''{"fixed":false,"order":["A.json","B.json"]}''\<close>

definition exOrderFixed :: string where
  \<open>exOrderFixed = ''{"fixed":true,"order":["B.json","A.json"]}''\<close>

definition exOrderDup :: string where
  \<open>exOrderDup = ''{"fixed":false,"order":["x.json","x.json"]}''\<close>

text \<open>The operating system refuses to create the store directory.\<close>

definition exNoMkdir :: world where
  "exNoMkdir =
     exEmpty\<lparr>fault := (\<lambda>c. if c = MkdirAll [''rri''] then Some (Ext ''permission denied'') else None)\<rparr>"

text \<open>The operating system refuses every write of the ordering file.\<close>

definition exNoOrderWrite :: world where
  "exNoOrderWrite =
     (exStore exOrderBA)
       \<lparr>fault := (\<lambda>c. case c of
                         WriteFile p d \<Rightarrow>
                           if p = [''rri'', ''env-order''] then Some (Ext ''permission denied'') else None
                       | _ \<Rightarrow> None)\<rparr>"

text \<open>
  An ordering file of 2147483649 names, the last of them a record of the store: the
  codec that decodes it.
\<close>

definition exBigOrder :: "string list" where
  "exBigOrder = replicate 2147483648 ''A.json'' @ [''C.json'']"

definition exBigCodec :: "string codec" where
  "exBigCodec = exCodec\<lparr>jsonDecode := (\<lambda>d. Inr \<lparr>Fixed = False, Order = Some exBigOrder\<rparr>)\<rparr>"

definition exBigStore :: world where
  "exBigStore =
     \<lparr>nodes = [([''rri''], Dir),
               ([''rri'', ''env-order''], File ''big''),
               ([''rri'', ''B.json''], File ''b''),
               ([''rri'', ''C.json''], File ''c'')],
      fault = (\<lambda>c. None), log = []\<rparr>"

section \<open>Properties\<close>

subsection \<open>Worlds and paths\<close>

lemma nodes_logEvent [simp]: "nodes (logEvent ev w) = nodes w"
  and fault_logEvent [simp]: "fault (logEvent ev w) = fault w"
  and log_logEvent [simp]: "log (logEvent ev w) = log w @ [ev]"
  by (simp_all add: logEvent_def)

lemma snd_isFile: "snd (isFile p w) = logEvent (Call (Stat p)) w"
  by (simp add: isFile_def os_Stat_def split: option.splits)

lemma isFile_eq: "fst (isFile p w) = r \<Longrightarrow> isFile p w = (r, logEvent (Call (Stat p)) w)"
  using snd_isFile [of p w] by (cases "isFile p w") simp

lemma cleanElems_append: "cleanElems acc (xs @ ys) = cleanElems (cleanElems acc xs) ys"
  by (induction xs arbitrary: acc) auto

lemma splitSlash_nonempty: "splitSlash s \<noteq> []"
  by (induction s) (auto split: list.splits)

lemma splitSlash_noslash: "CHR ''/'' \<notin> set s \<Longrightarrow> splitSlash s = [s]"
  by (induction s) auto

lemma splitSlash_append_noslash:
  "CHR ''/'' \<notin> set t \<Longrightarrow> splitSlash (s @ t) = butlast (splitSlash s) @ [last (splitSlash s) @ t]"
  apply (induction s)
   apply (simp add: splitSlash_noslash)
  apply (auto split: list.splits simp: splitSlash_nonempty)
  done

lemma Join_last:
  assumes "CHR ''/'' \<notin> set t" "t \<noteq> []" "\<And>u. u @ t \<noteq> ''.''" "\<And>u. u @ t \<noteq> ''..''"
  shows "Join d (s @ t) = cleanElems d (butlast (splitSlash s)) @ [last (splitSlash s) @ t]"
  using assms by (simp add: Join_def splitSlash_append_noslash cleanElems_append)

lemma json_not_dots: "u @ ''.json'' \<noteq> ''.''" "u @ ''.json'' \<noteq> ''..''"
  using arg_cong [of "u @ ''.json''" "''.''" length] arg_cong [of "u @ ''.json''" "''..''" length]
  by auto

lemma getEnvFilePath_eq:
  "getEnvFilePath e n = cleanElems (dir e) (butlast (splitSlash n)) @ [last (splitSlash n) @ ''.json'']"
  unfolding getEnvFilePath_def by (rule Join_last) (simp_all add: json_not_dots)

lemma getEnvFilePath_noslash:
  "CHR ''/'' \<notin> set n \<Longrightarrow> getEnvFilePath e n = dir e @ [n @ ''.json'']"
  by (simp add: getEnvFilePath_eq splitSlash_noslash)

lemma orderPath_eq: "Join (dir e) envOrderFileName = dir e @ [''env-order'']"
  by (simp add: Join_def envOrderFileName_def)

lemma getEnvFilePath_ne_orderPath: "getEnvFilePath e n \<noteq> Join (dir e) envOrderFileName"
proof
  assume "getEnvFilePath e n = Join (dir e) envOrderFileName"
  then have "last (getEnvFilePath e n) = last (Join (dir e) envOrderFileName)" by simp
  then have "last (splitSlash n) @ ''.json'' = ''env-order''"
    by (simp add: getEnvFilePath_eq orderPath_eq)
  then have "drop (length (last (splitSlash n))) (last (splitSlash n) @ ''.json'') = drop (length (last (splitSlash n))) ''env-order''" by simp
  then have "''.json'' = drop (length (last (splitSlash n))) ''env-order''" by simp
  moreover have "length (last (splitSlash n)) + 5 = 9"
    using \<open>last (splitSlash n) @ ''.json'' = ''env-order''\<close> arg_cong [of "last (splitSlash n) @ ''.json''" "''env-order''" length] by simp
  ultimately show False by simp
qed

lemma os_ReadFile_eq:
  "os_ReadFile p w = (fst (os_ReadFile p w), logEvent (Call (ReadFile p)) w)"
  by (simp add: os_ReadFile_def)

lemma fst_os_ReadFile_cong:
  "fault w' = fault w \<Longrightarrow> map_of (nodes w') p = map_of (nodes w) p \<Longrightarrow>
   fst (os_ReadFile p w') = fst (os_ReadFile p w)"
  by (simp add: os_ReadFile_def split: option.splits)

lemma snd_readEnvOrder:
  "snd (readEnvOrder e c w) = logEvent (Call (ReadFile (Join (dir e) envOrderFileName))) w"
  by (simp add: readEnvOrder_def os_ReadFile_def split: option.splits node.splits sum.splits)

lemma readEnvOrder_no_error: "snd (fst (readEnvOrder e c w)) = None"
  by (simp add: readEnvOrder_def os_ReadFile_def split: option.splits node.splits sum.splits)

lemma readEnvOrder_eq:
  "readEnvOrder e c w =
     ((fst (fst (readEnvOrder e c w)), None),
      logEvent (Call (ReadFile (Join (dir e) envOrderFileName))) w)"
  using snd_readEnvOrder [of e c w] readEnvOrder_no_error [of e c w]
  by (metis prod.collapse)

lemma fst_readEnvOrder_cong:
  assumes "fault w' = fault w"
    and "map_of (nodes w') (Join (dir e) envOrderFileName) = map_of (nodes w) (Join (dir e) envOrderFileName)"
  shows "fst (readEnvOrder e c w') = fst (readEnvOrder e c w)"
  using assms by (simp add: readEnvOrder_def os_ReadFile_def split: option.splits node.splits sum.splits)

lemma appendOthers_eq: "appendOthers name acc xs = acc @ filter (\<lambda>env. env \<noteq> name) xs"
  by (induction xs arbitrary: acc) auto

lemma envOrderBringToFront_fixed:
  assumes "Fixed (fst (fst (readEnvOrder e c w)))"
  shows "envOrderBringToFront e c name w =
           (None, logEvent (Call (ReadFile (Join (dir e) envOrderFileName))) w)"
  unfolding envOrderBringToFront_def
  by (subst readEnvOrder_eq) (simp add: assms)

lemma envOrderBringToFront_unfixed:
  assumes "\<not> Fixed (fst (fst (readEnvOrder e c w)))"
  shows "envOrderBringToFront e c name w =
           writeEnvOrder e c
             ((fst (fst (readEnvOrder e c w)))
                \<lparr>Order := Some (normalizeName name #
                   filter (\<lambda>env. env \<noteq> normalizeName name) (prevOrder (fst (fst (readEnvOrder e c w)))))\<rparr>)
             (logEvent (Call (ReadFile (Join (dir e) envOrderFileName))) w)"
  unfolding envOrderBringToFront_def
  by (subst readEnvOrder_eq) (simp add: assms appendOthers_eq prevOrder_def Let_def split: option.splits)

subsection \<open>What the system calls keep\<close>

lemma mkdirs_keeps:
  "mkdirs q xs fs = Inr fs' \<Longrightarrow> length q + length xs < length p \<Longrightarrow> map_of fs' p = map_of fs p"
proof (induction xs arbitrary: q fs)
  case Nil
  then show ?case by simp
next
  case (Cons x xs)
  show ?case
  proof (cases "map_of fs (q @ [x])")
    case None
    with Cons.prems have m: "mkdirs (q @ [x]) xs (fs @ [(q @ [x], Dir)]) = Inr fs'" by simp
    have l: "length (q @ [x]) + length xs < length p" using Cons.prems(2) by simp
    have "map_of fs' p = map_of (fs @ [(q @ [x], Dir)]) p"
      by (rule Cons.IH [OF m l])
    moreover have "q @ [x] \<noteq> p" using Cons.prems(2) by auto
    ultimately show ?thesis by (simp add: map_add_def split: option.splits)
  next
    case (Some n)
    with Cons.prems have m: "mkdirs (q @ [x]) xs fs = Inr fs'"
      by (cases n) simp_all
    have l: "length (q @ [x]) + length xs < length p" using Cons.prems(2) by simp
    show ?thesis by (rule Cons.IH [OF m l])
  qed
qed

lemma os_MkdirAll_keeps:
  "fault (snd (os_MkdirAll p w)) = fault w"
  "length p < length q \<Longrightarrow> map_of (nodes (snd (os_MkdirAll p w))) q = map_of (nodes w) q"
  by (auto simp: os_MkdirAll_def Let_def mkdirs_keeps split: option.splits sum.splits)

lemma os_WriteFile_keeps:
  "fault (snd (os_WriteFile p d w)) = fault w"
  "q \<noteq> p \<Longrightarrow> map_of (nodes (snd (os_WriteFile p d w))) q = map_of (nodes w) q"
  by (auto simp: os_WriteFile_def Let_def update_conv' split: option.splits)

lemma jcrypt_MarshalToFile_keeps:
  "fault (snd (jcrypt_MarshalToFile c p env k w)) = fault w"
  "q \<noteq> p \<Longrightarrow> map_of (nodes (snd (jcrypt_MarshalToFile c p env k w))) q = map_of (nodes w) q"
  by (auto simp: jcrypt_MarshalToFile_def os_WriteFile_keeps split: sum.splits)

lemma jcrypt_UnmarshalFromFile_keeps:
  "fault (snd (jcrypt_UnmarshalFromFile c p env k w)) = fault w"
  "nodes (snd (jcrypt_UnmarshalFromFile c p env k w)) = nodes w"
  by (auto simp: jcrypt_UnmarshalFromFile_def os_ReadFile_def split: sum.splits option.splits node.splits)

lemma saveCaptured_keeps:
  "fault (saveCaptured e c p env k w) = fault w"
  "q \<noteq> p \<Longrightarrow> length (dir e) < length q \<Longrightarrow>
     map_of (nodes (saveCaptured e c p env k w)) q = map_of (nodes w) q"
proof -
  obtain r1 w1 where m: "os_MkdirAll (dir e) w = (r1, w1)" by (cases "os_MkdirAll (dir e) w")
  obtain r2 w2 where j: "jcrypt_MarshalToFile c p env k w1 = (r2, w2)"
    by (cases "jcrypt_MarshalToFile c p env k w1")
  have f1: "fault w1 = fault w" using os_MkdirAll_keeps(1) [of "dir e" w] m by simp
  have f2: "fault w2 = fault w1" using jcrypt_MarshalToFile_keeps(1) [of c p env k w1] j by simp
  show "fault (saveCaptured e c p env k w) = fault w"
    using f1 f2 by (simp add: saveCaptured_def m j split: option.splits)
  assume q: "q \<noteq> p" "length (dir e) < length q"
  have n1: "map_of (nodes w1) q = map_of (nodes w) q"
    using os_MkdirAll_keeps(2) [OF q(2), of w] m by simp
  have n2: "map_of (nodes w2) q = map_of (nodes w1) q"
    using jcrypt_MarshalToFile_keeps(2) [OF q(1), of c env k w1] j by simp
  show "map_of (nodes (saveCaptured e c p env k w)) q = map_of (nodes w) q"
    using n1 n2 by (simp add: saveCaptured_def m j split: option.splits)
qed

subsection \<open>The branches of createOrReadEnvironment\<close>

lemma createOrRead_capture_fails:
  assumes "fst (isFile (getEnvFilePath e envName) w) = Inr False"
    and "h envName env = (Some err, env')"
  shows "createOrReadEnvironment e c envName env (Some h) w = ((Some err, env'), asked e envName w)"
  using isFile_eq [OF assms(1)] assms(2)
  by (simp add: createOrReadEnvironment_def asked_def logEvent_def)

lemma createOrRead_capture_ok:
  assumes "fst (isFile (getEnvFilePath e envName) w) = Inr False"
    and "h envName env = (None, env')"
  shows "createOrReadEnvironment e c envName env (Some h) w =
           ((None, env'),
            snd (envOrderBringToFront e c envName
                   (saveCaptured e c (getEnvFilePath e envName) env' (keySourceOf e) (asked e envName w))))"
  using isFile_eq [OF assms(1)] assms(2)
  by (simp add: createOrReadEnvironment_def asked_def logEvent_def keySourceOf_def Let_def)

lemma createOrRead_exists:
  assumes "fst (isFile (getEnvFilePath e envName) w) = Inr True"
  shows "createOrReadEnvironment e c envName env h w =
           (let r = jcrypt_UnmarshalFromFile c (getEnvFilePath e envName) env (keySourceOf e)
                      (logEvent (Call (Stat (getEnvFilePath e envName))) w)
            in case fst (fst r) of
                 Some err \<Rightarrow> r
               | None \<Rightarrow> (fst r, snd (envOrderBringToFront e c envName (snd r))))"
  using isFile_eq [OF assms(1)]
  by (simp add: createOrReadEnvironment_def keySourceOf_def Let_def split: prod.splits option.splits)

lemma saveCaptured_mkdir_fails:
  assumes "fst (os_MkdirAll (dir e) w) = Some err"
  shows "saveCaptured e c file env k w =
           w\<lparr>log := log w @ [Call (MkdirAll (dir e)),
                              warning err]\<rparr>"
  using assms
  by (auto simp: saveCaptured_def os_MkdirAll_def Let_def logEvent_def warning_def split: option.splits sum.splits)

lemma saveCaptured_write_fails:
  assumes "fst (os_MkdirAll (dir e) w) = None"
    and "fst (jcrypt_MarshalToFile c file env k (snd (os_MkdirAll (dir e) w))) = Some err"
  shows "saveCaptured e c file env k w =
           logEvent (warning err)
             (snd (jcrypt_MarshalToFile c file env k (snd (os_MkdirAll (dir e) w))))"
proof -
  obtain w1 where m: "os_MkdirAll (dir e) w = (None, w1)"
    using assms(1) by (cases "os_MkdirAll (dir e) w") simp
  obtain w2 where j: "jcrypt_MarshalToFile c file env k w1 = (Some err, w2)"
    using assms(2) m by (cases "jcrypt_MarshalToFile c file env k w1") simp
  show ?thesis by (simp add: saveCaptured_def m j warning_def)
qed

lemma log_writeEnvOrder: "set (log w) \<subseteq> set (log (snd (writeEnvOrder e c order w)))"
  by (auto simp: writeEnvOrder_def os_WriteFile_def Let_def logEvent_def split: sum.splits option.splits)

lemma envOrderBringToFront_reads:
  "Call (ReadFile (Join (dir e) envOrderFileName)) \<in> set (log (snd (envOrderBringToFront e c name w)))"
proof (cases "Fixed (fst (fst (readEnvOrder e c w)))")
  case True
  then show ?thesis by (simp add: envOrderBringToFront_fixed)
next
  case False
  show ?thesis
    unfolding envOrderBringToFront_unfixed [OF False]
    using log_writeEnvOrder by fastforce
qed

subsection \<open>Fixed order\<close>

lemma orderPath_longer: "length (dir e) < length (Join (dir e) envOrderFileName)"
  by (simp add: orderPath_eq)

lemma asked_keeps [simp]:
  "fault (asked e envName w) = fault w" "nodes (asked e envName w) = nodes w"
  by (simp_all add: asked_def)

lemma createOrRead_keeps_fixed:
  assumes "Fixed (fst (fst (readEnvOrder e c w)))"
  shows "fault (snd (createOrReadEnvironment e c envName env h w)) = fault w
       \<and> map_of (nodes (snd (createOrReadEnvironment e c envName env h w))) (Join (dir e) envOrderFileName)
           = map_of (nodes w) (Join (dir e) envOrderFileName)"
proof -
  let ?op = "Join (dir e) envOrderFileName"
  let ?file = "getEnvFilePath e envName"
  have upd: "fault (snd (envOrderBringToFront e c envName w')) = fault w \<and>
             map_of (nodes (snd (envOrderBringToFront e c envName w'))) ?op = map_of (nodes w) ?op"
    if "fault w' = fault w" "map_of (nodes w') ?op = map_of (nodes w) ?op" for w'
  proof -
    have "fst (readEnvOrder e c w') = fst (readEnvOrder e c w)"
      using that by (rule fst_readEnvOrder_cong)
    then have "Fixed (fst (fst (readEnvOrder e c w')))" using assms by simp
    then show ?thesis using that by (simp add: envOrderBringToFront_fixed)
  qed
  consider (err) x where "fst (isFile ?file w) = Inl x"
    | (missing) "fst (isFile ?file w) = Inr False"
    | (there) "fst (isFile ?file w) = Inr True"
    by (cases "fst (isFile ?file w)") auto
  then show ?thesis
  proof cases
    case err
    from isFile_eq [OF this] show ?thesis by (simp add: createOrReadEnvironment_def)
  next
    case missing
    show ?thesis
    proof (cases h)
      case None
      with isFile_eq [OF missing] show ?thesis by (simp add: createOrReadEnvironment_def)
    next
      case (Some g)
      obtain r env' where g: "g envName env = (r, env')" by (cases "g envName env")
      show ?thesis
      proof (cases r)
        case None
        let ?w4 = "saveCaptured e c ?file env' (keySourceOf e) (asked e envName w)"
        have "fault ?w4 = fault w" by (simp add: saveCaptured_keeps(1))
        moreover have "map_of (nodes ?w4) ?op = map_of (nodes w) ?op"
          using saveCaptured_keeps(2) [of ?op ?file e c env' "keySourceOf e" "asked e envName w"]
            getEnvFilePath_ne_orderPath [of e envName] orderPath_longer [of e]
          by auto
        ultimately show ?thesis
          using upd [of ?w4] createOrRead_capture_ok [where h = g, OF missing] g None Some
          by simp
      next
        case (Some err)
        with createOrRead_capture_fails [where h = g, OF missing] g \<open>h = Some g\<close>
        show ?thesis by simp
      qed
    qed
  next
    case there
    let ?r = "jcrypt_UnmarshalFromFile c ?file env (keySourceOf e) (logEvent (Call (Stat ?file)) w)"
    have k: "fault (snd ?r) = fault w" "nodes (snd ?r) = nodes w"
      by (simp_all add: jcrypt_UnmarshalFromFile_keeps)
    show ?thesis
      using upd [of "snd ?r"] k
      by (simp add: createOrRead_exists [OF there] Let_def split: option.splits)
  qed
qed

subsection \<open>Delete\<close>

lemma DeleteEnvironment_missing:
  assumes "fst (isFile (getEnvFilePath e envName) w) = Inr False"
  shows "DeleteEnvironment e envName w =
           (Some (Errorf ''environment %q does not exist'' [envName]),
            w\<lparr>log := log w @ [Call (Stat (getEnvFilePath e envName))]\<rparr>)"
  using isFile_eq [OF assms] by (simp add: DeleteEnvironment_def logEvent_def)

lemma os_Remove_ok:
  assumes "fst (os_Remove p w) = None"
  shows "nodes (snd (os_Remove p w)) = AList.delete p (nodes w)"
    and "fault (snd (os_Remove p w)) = fault w"
proof -
  from assms have "fault w (Remove p) = None"
    by (cases "fault w (Remove p)") (simp_all add: os_Remove_def Let_def)
  moreover from this assms obtain n where "map_of (nodes w) p = Some n"
    by (cases "map_of (nodes w) p") (simp_all add: os_Remove_def Let_def)
  ultimately show "nodes (snd (os_Remove p w)) = AList.delete p (nodes w)"
    and "fault (snd (os_Remove p w)) = fault w"
    using assms by (cases n; simp add: os_Remove_def Let_def split: if_splits)+
qed

lemma DeleteEnvironment_ok:
  assumes "fst (DeleteEnvironment e envName w) = None"
  shows "nodes (snd (DeleteEnvironment e envName w)) = AList.delete (getEnvFilePath e envName) (nodes w)"
    and "fault (snd (DeleteEnvironment e envName w)) = fault w"
proof -
  let ?file = "getEnvFilePath e envName"
  have isf: "fst (isFile ?file w) = Inr True"
  proof (cases "fst (isFile ?file w)")
    case (Inl x)
    from isFile_eq [OF this] assms show ?thesis by (simp add: DeleteEnvironment_def)
  next
    case (Inr b)
    from isFile_eq [OF this] assms show ?thesis by (cases b) (simp_all add: DeleteEnvironment_def)
  qed
  have del: "DeleteEnvironment e envName w = os_Remove ?file (logEvent (Call (Stat ?file)) w)"
    using isFile_eq [OF isf] by (simp add: DeleteEnvironment_def Let_def)
  from assms have ok: "fst (os_Remove ?file (logEvent (Call (Stat ?file)) w)) = None"
    by (simp add: del)
  show "nodes (snd (DeleteEnvironment e envName w)) = AList.delete ?file (nodes w)"
    and "fault (snd (DeleteEnvironment e envName w)) = fault w"
    using os_Remove_ok [OF ok] by (simp_all add: del)
qed

subsection \<open>Writes\<close>

lemma os_WriteFile_ok:
  "fst (os_WriteFile p d w) = None \<Longrightarrow> map_of (nodes (snd (os_WriteFile p d w))) p = Some (File d)"
  by (auto simp: os_WriteFile_def Let_def update_conv' split: option.splits if_splits)

lemma os_WriteFile_fails:
  "fst (os_WriteFile p d w) = Some err \<Longrightarrow> nodes (snd (os_WriteFile p d w)) = nodes w"
  by (auto simp: os_WriteFile_def Let_def split: option.splits if_splits)

lemma writeEnvOrder_keeps: "fault (snd (writeEnvOrder e c order w)) = fault w"
  by (simp add: writeEnvOrder_def os_WriteFile_keeps split: sum.splits)

lemma writeEnvOrder_ok:
  assumes "fst (writeEnvOrder e c order w) = None" and "jsonEncode c order = Inr d"
  shows "map_of (nodes (snd (writeEnvOrder e c order w))) (orderPath e) = Some (File d)"
  using assms by (simp add: writeEnvOrder_def os_WriteFile_ok)

lemma writeEnvOrder_fails:
  "fst (writeEnvOrder e c order w) = Some err \<Longrightarrow> nodes (snd (writeEnvOrder e c order w)) = nodes w"
  by (auto simp: writeEnvOrder_def os_WriteFile_fails split: sum.splits)

lemma writeEnvOrder_same:
  assumes "jsonEncode c order = Inr d" and "map_of (nodes w) (orderPath e) = Some (File d)"
  shows "map_of (nodes (snd (writeEnvOrder e c order w))) (orderPath e) = Some (File d)"
proof (cases "fst (writeEnvOrder e c order w)")
  case None
  then show ?thesis using assms(1) by (rule writeEnvOrder_ok)
next
  case (Some err)
  then show ?thesis using assms(2) by (simp add: writeEnvOrder_fails)
qed

lemma readEnvOrder_default:
  "fst (os_ReadFile (orderPath e) w) = Inl err \<Longrightarrow>
     fst (fst (readEnvOrder e c w)) = \<lparr>Fixed = False, Order = Some []\<rparr>"
  by (cases "os_ReadFile (orderPath e) w") (simp add: readEnvOrder_def)

lemma readEnvOrder_unparsable:
  "fst (os_ReadFile (orderPath e) w) = Inr d \<Longrightarrow> json_Unmarshal c d = Inl err \<Longrightarrow>
     fst (fst (readEnvOrder e c w)) = \<lparr>Fixed = False, Order = Some []\<rparr>"
  by (cases "os_ReadFile (orderPath e) w") (simp add: readEnvOrder_def)

lemma readEnvOrder_parsed:
  "fst (os_ReadFile (orderPath e) w) = Inr d \<Longrightarrow> json_Unmarshal c d = Inr order \<Longrightarrow>
     fst (fst (readEnvOrder e c w)) = order"
  by (cases "os_ReadFile (orderPath e) w") (simp add: readEnvOrder_def)

subsection \<open>Move to front\<close>

lemma moved_Fixed [simp]: "Fixed (moved name order) = Fixed order"
  by (simp add: moved_def)

lemma prevOrder_moved:
  "prevOrder (moved name order) =
     normalizeName name # filter (\<lambda>env. env \<noteq> normalizeName name) (prevOrder order)"
  by (simp add: moved_def prevOrder_def)

lemma moved_moved: "moved name (moved name order) = moved name order"
  by (simp add: moved_def prevOrder_def)

lemma envOrderBringToFront_moved:
  assumes "\<not> Fixed (fst (fst (readEnvOrder e c w)))"
  shows "envOrderBringToFront e c name w =
           writeEnvOrder e c (moved name (fst (fst (readEnvOrder e c w))))
             (w\<lparr>log := log w @ [Call (ReadFile (orderPath e))]\<rparr>)"
  using envOrderBringToFront_unfixed [OF assms, of name] by (simp add: moved_def logEvent_def)

lemma count_list_filter_neq: "count_list (filter (\<lambda>y. y \<noteq> x) xs) x = 0"
  by (induction xs) auto

lemma bring_twice:
  assumes unfixed: "\<not> Fixed (fst (fst (readEnvOrder e c w)))"
    and ok: "fst (envOrderBringToFront e c name w) = None"
    and enc: "jsonEncode c (moved name (fst (fst (readEnvOrder e c w)))) = Inr d"
    and dec: "json_Unmarshal c d = Inr (moved name (fst (fst (readEnvOrder e c w))))"
  shows "map_of (nodes (snd (envOrderBringToFront e c name (snd (envOrderBringToFront e c name w)))))
           (orderPath e) = Some (File d)"
proof -
  let ?order = "fst (fst (readEnvOrder e c w))"
  let ?w1 = "w\<lparr>log := log w @ [Call (ReadFile (orderPath e))]\<rparr>"
  let ?w' = "snd (envOrderBringToFront e c name w)"
  have first: "envOrderBringToFront e c name w = writeEnvOrder e c (moved name ?order) ?w1"
    by (rule envOrderBringToFront_moved [OF unfixed])
  have held: "map_of (nodes ?w') (orderPath e) = Some (File d)"
    using ok enc unfolding first by (rule writeEnvOrder_ok)
  have flt: "fault ?w' = fault w"
    unfolding first by (simp add: writeEnvOrder_keeps)
  have again: "moved name (fst (fst (readEnvOrder e c ?w'))) = moved name ?order"
  proof (cases "fault w (ReadFile (orderPath e))")
    case None
    then have "fst (os_ReadFile (orderPath e) ?w') = Inr d"
      using held flt by (simp add: os_ReadFile_def)
    then have "fst (fst (readEnvOrder e c ?w')) = moved name ?order"
      using dec by (rule readEnvOrder_parsed)
    then show ?thesis by (simp add: moved_moved)
  next
    case (Some err)
    then have "fst (os_ReadFile (orderPath e) ?w') = Inl err"
      and "fst (os_ReadFile (orderPath e) w) = Inl err"
      using flt by (simp_all add: os_ReadFile_def)
    then have "fst (fst (readEnvOrder e c ?w')) = \<lparr>Fixed = False, Order = Some []\<rparr>"
      and "?order = \<lparr>Fixed = False, Order = Some []\<rparr>"
      by (simp_all add: readEnvOrder_default)
    then show ?thesis by simp
  qed
  have unfixed': "\<not> Fixed (fst (fst (readEnvOrder e c ?w')))"
    using arg_cong [OF again, of Fixed] unfixed by simp
  show ?thesis
    unfolding envOrderBringToFront_moved [OF unfixed', of name] again
    using enc by (rule writeEnvOrder_same) (simp add: held)
qed

subsection \<open>Names\<close>

lemma getEnvFilePath_inj:
  assumes "CHR ''/'' \<notin> set a" "CHR ''/'' \<notin> set b" "getEnvFilePath e a = getEnvFilePath e b"
  shows "a = b"
  using assms by (simp add: getEnvFilePath_noslash)

subsection \<open>Listing\<close>

lemma os_ReadDir_eq: "os_ReadDir p w = (fst (os_ReadDir p w), logEvent (Call (ReadDir p)) w)"
  by (simp add: os_ReadDir_def)

lemma GetEnvironmentFiles_eq:
  "GetEnvironmentFiles e c w =
     (case fst (os_ReadDir (dir e) w) of
        Inl err \<Rightarrow> (if IsNotExist err then Inr [] else Inl err, logEvent (Call (ReadDir (dir e))) w)
      | Inr files \<Rightarrow>
          (Inr (ordered (prevOrder (fst (fst (readEnvOrder e c w)))) (filter isEnvFile files)),
           logEvent (Call (ReadFile (orderPath e))) (logEvent (Call (ReadDir (dir e))) w)))"
proof -
  let ?w1 = "logEvent (Call (ReadDir (dir e))) w"
  have r: "fst (readEnvOrder e c ?w1) = fst (readEnvOrder e c w)"
    by (rule fst_readEnvOrder_cong) simp_all
  show ?thesis
    unfolding GetEnvironmentFiles_def
    apply (subst os_ReadDir_eq)
    apply (cases "fst (os_ReadDir (dir e) w)")
     apply simp
    apply (subst readEnvOrder_eq)
    apply (simp add: r ordered_def prevOrder_def Let_def split: option.splits)
    done
qed

lemma fst_os_ReadDir_cong:
  "fault w' = fault w \<Longrightarrow> nodes w' = nodes w \<Longrightarrow> fst (os_ReadDir p w') = fst (os_ReadDir p w)"
  by (auto simp: os_ReadDir_def split: option.splits)

lemma GetEnvironmentFiles_keeps:
  "fault (snd (GetEnvironmentFiles e c w)) = fault w"
  "nodes (snd (GetEnvironmentFiles e c w)) = nodes w"
  by (simp_all add: GetEnvironmentFiles_eq split: sum.splits)

lemma fst_GetEnvironmentFiles_cong:
  assumes "fault w' = fault w" and "nodes w' = nodes w"
  shows "fst (GetEnvironmentFiles e c w') = fst (GetEnvironmentFiles e c w)"
proof -
  have "fst (os_ReadDir (dir e) w') = fst (os_ReadDir (dir e) w)"
    using assms by (rule fst_os_ReadDir_cong)
  moreover have "fst (readEnvOrder e c w') = fst (readEnvOrder e c w)"
    using assms by (intro fst_readEnvOrder_cong) simp_all
  ultimately show ?thesis
    unfolding GetEnvironmentFiles_eq by (simp split: sum.splits)
qed

lemma GetEnvironmentFiles_again:
  "fst (GetEnvironmentFiles e c (snd (GetEnvironmentFiles e c w))) = fst (GetEnvironmentFiles e c w)"
  by (rule fst_GetEnvironmentFiles_cong) (rule GetEnvironmentFiles_keeps)+

subsection \<open>The sort\<close>

lemma insertStable_insort:
  "insertStable (orderLess m) x ys = insort_key (orderVal m) x ys"
  by (induction ys) (auto simp: orderLess_def)

lemma SliceStable_sort_key: "SliceStable (orderLess m) xs = sort_key (orderVal m) xs"
  by (induction xs) (simp_all add: insertStable_insort)

lemma fillOrderMap_append:
  "fillOrderMap i (xs @ ys) m = fillOrderMap (i + length xs) ys (fillOrderMap i xs m)"
  by (induction xs arbitrary: i m) simp_all

lemma fillOrderMap_absent: "name \<notin> set xs \<Longrightarrow> fillOrderMap i xs m name = m name"
  by (induction xs arbitrary: i m) simp_all

lemma fillOrderMap_present:
  "name \<in> set xs \<Longrightarrow>
     \<exists>k. fillOrderMap i xs m name = Some (i + k) \<and> k < length xs \<and> xs ! k = name \<and>
         (\<forall>j. k < j \<and> j < length xs \<longrightarrow> xs ! j \<noteq> name)"
proof (induction xs arbitrary: i m)
  case Nil
  then show ?case by simp
next
  case (Cons x xs)
  show ?case
  proof (cases "name \<in> set xs")
    case True
    from Cons.IH [OF True, of "Suc i" "m(x \<mapsto> i)"] obtain k where
      k: "fillOrderMap (Suc i) xs (m(x \<mapsto> i)) name = Some (Suc i + k)" "k < length xs" "xs ! k = name"
         "\<forall>j. k < j \<and> j < length xs \<longrightarrow> xs ! j \<noteq> name"
      by blast
    have "\<forall>j. Suc k < j \<and> j < length (x # xs) \<longrightarrow> (x # xs) ! j \<noteq> name"
    proof (intro allI impI)
      fix j assume j: "Suc k < j \<and> j < length (x # xs)"
      then obtain j' where "j = Suc j'" by (cases j) auto
      with j k(4) show "(x # xs) ! j \<noteq> name" by auto
    qed
    with k show ?thesis by (intro exI [of _ "Suc k"]) simp
  next
    case False
    with Cons.prems have x: "x = name" by simp
    have "fillOrderMap (Suc i) xs (m(x \<mapsto> i)) name = Some i"
      using False by (simp add: fillOrderMap_absent x)
    moreover have "\<forall>j. 0 < j \<and> j < length (x # xs) \<longrightarrow> (x # xs) ! j \<noteq> name"
    proof (intro allI impI)
      fix j assume j: "0 < j \<and> j < length (x # xs)"
      then obtain j' where "j = Suc j'" by (cases j) auto
      with j False show "(x # xs) ! j \<noteq> name" by (auto simp: in_set_conv_nth)
    qed
    ultimately show ?thesis using x by (intro exI [of _ 0]) simp
  qed
qed

lemma orderVal_present:
  assumes "Name fi \<in> set ord"
  shows "orderVal (fillOrderMap 0 ord Map.empty) fi < length ord
       \<and> ord ! orderVal (fillOrderMap 0 ord Map.empty) fi = Name fi
       \<and> (\<forall>j. orderVal (fillOrderMap 0 ord Map.empty) fi < j \<and> j < length ord \<longrightarrow> ord ! j \<noteq> Name fi)"
  using fillOrderMap_present [OF assms, of 0 Map.empty] by (auto simp: orderVal_def)

lemma orderVal_absent:
  "Name fi \<notin> set ord \<Longrightarrow> orderVal (fillOrderMap 0 ord Map.empty) fi = MaxInt32"
  by (simp add: orderVal_def fillOrderMap_absent)

lemma sorted_split:
  assumes "sorted (map f xs)" and "\<And>x. P x \<Longrightarrow> f x < M" and "\<And>x. \<not> P x \<Longrightarrow> f x = (M::nat)"
  shows "xs = filter P xs @ filter (\<lambda>x. \<not> P x) xs"
  using assms(1)
proof (induction xs)
  case Nil
  then show ?case by simp
next
  case (Cons x xs)
  then have IH: "xs = filter P xs @ filter (\<lambda>x. \<not> P x) xs" by simp
  show ?case
  proof (cases "P x")
    case True
    then show ?thesis using IH by simp
  next
    case False
    have "\<not> P y" if "y \<in> set xs" for y
    proof
      assume "P y"
      then have "f y < M" by (rule assms(2))
      moreover have "f x \<le> f y" using Cons.prems that by simp
      ultimately show False using assms(3) [OF False] by simp
    qed
    then have "filter P xs = []" "filter (\<lambda>x. \<not> P x) xs = xs"
      by (simp_all add: filter_empty_conv filter_id_conv)
    then show ?thesis using False by simp
  qed
qed

subsection \<open>The ordering file is no record\<close>

lemma not_isEnvFile_order: "\<not> isEnvFile \<lparr>Name = ''env-order'', IsDir = b\<rparr>"
  by (simp add: isEnvFile_def HasSuffix_def)

lemma children_Nil: "children [] d = []"
  by (simp add: children_def)

lemma children_Cons:
  "children ((p, n) # fs) d =
     (if p \<noteq> [] \<and> butlast p = d then [\<lparr>Name = last p, IsDir = (n = Dir)\<rparr>] else []) @ children fs d"
  by (simp add: children_def)

lemma envFiles_Cons_order:
  "last k = ''env-order'' \<Longrightarrow>
     filter isEnvFile (children ((k, n) # fs) d) = filter isEnvFile (children fs d)"
  using not_isEnvFile_order [of "n = Dir"] by (simp add: children_Cons)

lemma envFiles_Cons_other:
  "filter isEnvFile (children fs' d) = filter isEnvFile (children fs d) \<Longrightarrow>
     filter isEnvFile (children ((k, n) # fs') d) = filter isEnvFile (children ((k, n) # fs) d)"
  by (simp add: children_Cons)

lemma envFiles_update:
  assumes "last k = ''env-order''"
  shows "filter isEnvFile (children (AList.update k v fs) d) = filter isEnvFile (children fs d)"
proof (induction fs)
  case Nil
  show ?case by (simp add: envFiles_Cons_order [OF assms])
next
  case (Cons x fs)
  obtain k' n where x: "x = (k', n)" by (cases x)
  show ?case
  proof (cases "k' = k")
    case True
    then show ?thesis by (simp add: x envFiles_Cons_order [OF assms])
  next
    case False
    then show ?thesis using envFiles_Cons_other [OF Cons.IH] by (simp add: x)
  qed
qed

lemma envFiles_delete:
  assumes "last k = ''env-order''"
  shows "filter isEnvFile (children (AList.delete k fs) d) = filter isEnvFile (children fs d)"
proof (induction fs)
  case Nil
  show ?case by simp
next
  case (Cons x fs)
  obtain k' n where x: "x = (k', n)" by (cases x)
  show ?case
  proof (cases "k' = k")
    case True
    then show ?thesis using Cons.IH by (simp add: x envFiles_Cons_order [OF assms])
  next
    case False
    then show ?thesis using envFiles_Cons_other [OF Cons.IH] by (simp add: x)
  qed
qed

lemma envFiles_ReadDir:
  assumes "fault w' = fault w"
    and "map_of (nodes w') p = map_of (nodes w) p"
    and "filter isEnvFile (children (nodes w') p) = filter isEnvFile (children (nodes w) p)"
  shows "map_sum id (filter isEnvFile) (fst (os_ReadDir p w'))
           = map_sum id (filter isEnvFile) (fst (os_ReadDir p w))"
  using assms by (auto simp: os_ReadDir_def isDirAt_def filter_sort split: option.splits)

lemma GetEnvironmentFiles_unordered:
  assumes "prevOrder (fst (fst (readEnvOrder e c w))) = []"
  shows "fst (GetEnvironmentFiles e c w) =
           (case map_sum id (filter isEnvFile) (fst (os_ReadDir (dir e) w)) of
              Inl err \<Rightarrow> if IsNotExist err then Inr [] else Inl err
            | Inr envFiles \<Rightarrow> Inr envFiles)"
  by (cases "fst (os_ReadDir (dir e) w)") (simp_all add: GetEnvironmentFiles_eq assms ordered_def)

lemma os_ReadFile_missing:
  "map_of (nodes w) p = None \<Longrightarrow> \<exists>err. fst (os_ReadFile p w) = Inl err"
  by (simp add: os_ReadFile_def split: option.splits)

lemma os_ReadFile_file:
  "map_of (nodes w) p = Some (File d) \<Longrightarrow>
     fst (os_ReadFile p w) = Inr d \<or> (\<exists>err. fst (os_ReadFile p w) = Inl err)"
  by (simp add: os_ReadFile_def split: option.splits)

lemma readEnvOrder_missing:
  assumes "map_of (nodes w) (orderPath e) = None"
  shows "fst (fst (readEnvOrder e c w)) = \<lparr>Fixed = False, Order = Some []\<rparr>"
  using os_ReadFile_missing [OF assms] readEnvOrder_default by blast

lemma readEnvOrder_corrupt:
  assumes "map_of (nodes w) (orderPath e) = Some (File d)" and "json_Unmarshal c d = Inl err"
  shows "fst (fst (readEnvOrder e c w)) = \<lparr>Fixed = False, Order = Some []\<rparr>"
  using os_ReadFile_file [OF assms(1)] readEnvOrder_default readEnvOrder_unparsable [OF _ assms(2)]
  by blast

lemma json_Unmarshal_empty: "json_Unmarshal c [] = Inl (Ext ''unexpected end of JSON input'')"
  by (simp add: json_Unmarshal_def)

lemma listing_corrupt_or_absent:
  assumes "json_Unmarshal c d = Inl err"
  shows "fst (GetEnvironmentFiles e c (w\<lparr>nodes := AList.update (orderPath e) (File d) (nodes w)\<rparr>))
       = fst (GetEnvironmentFiles e c (w\<lparr>nodes := AList.delete (orderPath e) (nodes w)\<rparr>))"
proof -
  let ?wc = "w\<lparr>nodes := AList.update (orderPath e) (File d) (nodes w)\<rparr>"
  let ?wa = "w\<lparr>nodes := AList.delete (orderPath e) (nodes w)\<rparr>"
  have ne: "dir e \<noteq> orderPath e" by (simp add: orderPath_eq)
  have c: "prevOrder (fst (fst (readEnvOrder e c ?wc))) = []"
    using readEnvOrder_corrupt [of ?wc e d c err] assms by (simp add: update_conv' prevOrder_def)
  have a: "prevOrder (fst (fst (readEnvOrder e c ?wa))) = []"
    using readEnvOrder_missing [of ?wa e c] by (simp add: delete_conv' prevOrder_def)
  have "map_sum id (filter isEnvFile) (fst (os_ReadDir (dir e) ?wc))
          = map_sum id (filter isEnvFile) (fst (os_ReadDir (dir e) ?wa))"
    using ne by (intro envFiles_ReadDir) (simp_all add: update_conv' delete_conv' orderPath_eq envFiles_update envFiles_delete)
  then show ?thesis
    by (simp add: GetEnvironmentFiles_unordered [OF c] GetEnvironmentFiles_unordered [OF a])
qed

subsection \<open>Runs of the small store\<close>

lemma ex_paths:
  "dir exReader = [''rri'']"
  "orderPath exReader = [''rri'', ''env-order'']"
  "getEnvFilePath exReader ''A'' = [''rri'', ''A.json'']"
  "getEnvFilePath exReader ''dev'' = [''rri'', ''dev.json'']"
  "getEnvFilePath exReader ''foo.json'' = [''rri'', ''foo.json.json'']"
  "keySourceOf exReader = Inr []"
  "Join [''rri''] envOrderFileName = [''rri'', ''env-order'']"
  by (simp_all add: exReader_def Join_def envOrderFileName_def getEnvFilePath_def keySourceOf_def)

lemma ex_isFile_missing: "fst (isFile [''rri'', ''dev.json''] exEmpty) = Inr False"
  by (simp add: isFile_def os_Stat_def exEmpty_def)

lemma ex_isFile_missing_denied: "fst (isFile [''rri'', ''dev.json''] exNoMkdir) = Inr False"
  by (simp add: isFile_def os_Stat_def exEmpty_def exNoMkdir_def)

lemma ex_mkdir_denied:
  "fst (os_MkdirAll [''rri''] (asked exReader ''dev'' exNoMkdir)) = Some (Ext ''permission denied'')"
  by (simp add: os_MkdirAll_def Let_def asked_def exNoMkdir_def exEmpty_def)

lemma os_ReadFile_held:
  "fault w (ReadFile p) = None \<Longrightarrow> map_of (nodes w) p = Some (File d) \<Longrightarrow> fst (os_ReadFile p w) = Inr d"
  by (simp add: os_ReadFile_def)

lemma writeEnvOrder_refused:
  "jsonEncode c order = Inr d \<Longrightarrow> fault w (WriteFile (orderPath e) d) = Some err \<Longrightarrow>
     fst (writeEnvOrder e c order w) = Some err"
  by (simp add: writeEnvOrder_def os_WriteFile_def Let_def)

lemma ex_decode:
  "json_Unmarshal exCodec exOrderBA = Inr \<lparr>Fixed = False, Order = Some [''B.json'', ''A.json'']\<rparr>"
  "json_Unmarshal exCodec exOrderAB = Inr \<lparr>Fixed = False, Order = Some [''A.json'', ''B.json'']\<rparr>"
  "json_Unmarshal exCodec exOrderFixed = Inr \<lparr>Fixed = True, Order = Some [''B.json'', ''A.json'']\<rparr>"
  "json_Unmarshal exCodec exOrderDup = Inr \<lparr>Fixed = False, Order = Some [''x.json'', ''x.json'']\<rparr>"
  by (simp_all add: json_Unmarshal_def exCodec_def exDocs_def renderOrder_def
        exOrderBA_def exOrderAB_def exOrderFixed_def exOrderDup_def)

lemma ex_encode:
  "jsonEncode exCodec \<lparr>Fixed = False, Order = Some [''A.json'', ''B.json'']\<rparr> = Inr exOrderAB"
  by (simp add: exCodec_def renderOrder_def exOrderAB_def)

lemma ex_normalize:
  "normalizeName ''A'' = ''A.json''"
  "normalizeName ''y'' = ''y.json''"
  "normalizeName ''foo.json'' = ''foo.json''"
  by (simp_all add: normalizeName_def HasSuffix_def)

lemma ex_isFile_A: "fst (isFile [''rri'', ''A.json''] exNoOrderWrite) = Inr True"
  by (simp add: isFile_def os_Stat_def exNoOrderWrite_def exStore_def)

lemma ex_unmarshal_A:
  "jcrypt_UnmarshalFromFile exCodec [''rri'', ''A.json''] ''old'' (Inr [])
     (exNoOrderWrite\<lparr>log := log exNoOrderWrite @ [Call (Stat [''rri'', ''A.json''])]\<rparr>)
   = ((None, ''a''),
      exNoOrderWrite\<lparr>log := [Call (Stat [''rri'', ''A.json'']), Call (ReadFile [''rri'', ''A.json''])]\<rparr>)"
  by (simp add: jcrypt_UnmarshalFromFile_def os_ReadFile_def exNoOrderWrite_def exStore_def exCodec_def logEvent_def)

lemma ex_update_refused:
  "fst (envOrderBringToFront exReader exCodec ''A''
          (exNoOrderWrite\<lparr>log := [Call (Stat [''rri'', ''A.json'']), Call (ReadFile [''rri'', ''A.json''])]\<rparr>))
     = Some (Ext ''permission denied'')"
proof -
  let ?w = "exNoOrderWrite\<lparr>log := [Call (Stat [''rri'', ''A.json'']), Call (ReadFile [''rri'', ''A.json''])]\<rparr>"
  have "fst (os_ReadFile (orderPath exReader) ?w) = Inr exOrderBA"
    by (rule os_ReadFile_held) (simp_all add: ex_paths exNoOrderWrite_def exStore_def)
  then have r: "fst (fst (readEnvOrder exReader exCodec ?w)) = \<lparr>Fixed = False, Order = Some [''B.json'', ''A.json'']\<rparr>"
    using ex_decode(1) by (rule readEnvOrder_parsed)
  have u: "\<not> Fixed (fst (fst (readEnvOrder exReader exCodec ?w)))" by (simp add: r)
  have m: "moved ''A'' (fst (fst (readEnvOrder exReader exCodec ?w))) = \<lparr>Fixed = False, Order = Some [''A.json'', ''B.json'']\<rparr>"
    by (simp add: r moved_def prevOrder_def ex_normalize)
  show ?thesis
    unfolding envOrderBringToFront_moved [OF u] m
    by (rule writeEnvOrder_refused [OF ex_encode]) (simp add: ex_paths exNoOrderWrite_def)
qed

lemma envOrderBringToFront_writes:
  assumes "\<not> Fixed (fst (fst (readEnvOrder e c w)))"
    and "jsonEncode c (moved name (fst (fst (readEnvOrder e c w)))) = Inr d"
    and "fault w (WriteFile (orderPath e) d) = None"
    and "map_of (nodes w) (orderPath e) \<noteq> Some Dir"
    and "isDirAt (nodes w) (dir e)"
  shows "envOrderBringToFront e c name w =
           (None, w\<lparr>nodes := AList.update (orderPath e) (File d) (nodes w),
                     log := log w @ [Call (ReadFile (orderPath e)), Call (WriteFile (orderPath e) d)]\<rparr>)"
  unfolding envOrderBringToFront_moved [OF assms(1)]
  using assms(2-5)
  by (simp add: writeEnvOrder_def os_WriteFile_def Let_def logEvent_def orderPath_eq)

lemma readEnvOrder_held:
  assumes "fault w (ReadFile (orderPath e)) = None"
    and "map_of (nodes w) (orderPath e) = Some (File d)"
    and "json_Unmarshal c d = Inr order"
  shows "fst (fst (readEnvOrder e c w)) = order"
  using os_ReadFile_held [OF assms(1,2)] assms(3) by (rule readEnvOrder_parsed)

lemma ex_store_order:
  "json_Unmarshal exCodec d = Inr order \<Longrightarrow> fst (fst (readEnvOrder exReader exCodec (exStore d))) = order"
  by (rule readEnvOrder_held [where d = d]) (simp_all add: ex_paths exStore_def)

lemma ex_delete_A:
  "DeleteEnvironment exReader ''A'' (exStore exOrderBA) =
     (None, \<lparr>nodes = [([''rri''], Dir),
                       ([''rri'', ''C.json''], File ''c''),
                       ([''rri'', ''env-order''], File exOrderBA),
                       ([''rri'', ''B.json''], File ''b'')],
             fault = (\<lambda>c. None),
             log = [Call (Stat [''rri'', ''A.json'']), Call (Remove [''rri'', ''A.json''])]\<rparr>)"
  by (simp add: DeleteEnvironment_def ex_paths isFile_def os_Stat_def os_Remove_def exStore_def
        logEvent_def Let_def)

lemma ex_jsonEncode: "jsonEncode exCodec order = Inr (renderOrder order)"
  by (simp add: exCodec_def)

lemma ex_store_update:
  assumes "json_Unmarshal exCodec d = Inr order" and "\<not> Fixed order"
  shows "envOrderBringToFront exReader exCodec name (exStore d) =
           (None, (exStore d)\<lparr>nodes := AList.update [''rri'', ''env-order'']
                                          (File (renderOrder (moved name order))) (nodes (exStore d)),
                     log := [Call (ReadFile [''rri'', ''env-order'']),
                             Call (WriteFile [''rri'', ''env-order''] (renderOrder (moved name order)))]\<rparr>)"
proof -
  have r: "fst (fst (readEnvOrder exReader exCodec (exStore d))) = order"
    by (rule ex_store_order [OF assms(1)])
  have "envOrderBringToFront exReader exCodec name (exStore d) =
           (None, (exStore d)\<lparr>nodes := AList.update (orderPath exReader) (File (renderOrder (moved name order))) (nodes (exStore d)),
                     log := log (exStore d) @ [Call (ReadFile (orderPath exReader)),
                             Call (WriteFile (orderPath exReader) (renderOrder (moved name order)))]\<rparr>)"
    by (rule envOrderBringToFront_writes)
       (simp_all add: r assms(2) ex_jsonEncode ex_paths isDirAt_def, simp_all add: exStore_def)
  then show ?thesis by (simp add: ex_paths) (simp add: exStore_def)
qed

lemma ex_moved:
  "moved ''A'' \<lparr>Fixed = False, Order = Some [''B.json'', ''A.json'']\<rparr>
     = \<lparr>Fixed = False, Order = Some [''A.json'', ''B.json'']\<rparr>"
  "moved ''y'' \<lparr>Fixed = False, Order = Some [''x.json'', ''x.json'']\<rparr>
     = \<lparr>Fixed = False, Order = Some [''y.json'', ''x.json'', ''x.json'']\<rparr>"
  by (simp_all add: moved_def prevOrder_def ex_normalize)

lemma ex_render_AB: "renderOrder \<lparr>Fixed = False, Order = Some [''A.json'', ''B.json'']\<rparr> = exOrderAB"
  by (simp add: renderOrder_def exOrderAB_def)

lemma ex_decode_yxx:
  "json_Unmarshal exCodec (renderOrder \<lparr>Fixed = False, Order = Some [''y.json'', ''x.json'', ''x.json'']\<rparr>)
     = Inr \<lparr>Fixed = False, Order = Some [''y.json'', ''x.json'', ''x.json'']\<rparr>"
  by (simp add: json_Unmarshal_def exCodec_def exDocs_def renderOrder_def)

lemma ex_dir_update:
  "envOrderBringToFront exReader exCodec ''foo.json'' exDir =
     (None, \<lparr>nodes = [([''rri''], Dir),
                       ([''rri'', ''env-order''],
                        File (renderOrder \<lparr>Fixed = False, Order = Some [''foo.json'']\<rparr>))],
             fault = (\<lambda>c. None),
             log = [Call (ReadFile [''rri'', ''env-order'']),
                    Call (WriteFile [''rri'', ''env-order'']
                           (renderOrder \<lparr>Fixed = False, Order = Some [''foo.json'']\<rparr>))]\<rparr>)"
proof -
  have r: "fst (fst (readEnvOrder exReader exCodec exDir)) = \<lparr>Fixed = False, Order = Some []\<rparr>"
    by (rule readEnvOrder_missing) (simp add: ex_paths exDir_def)
  have m: "moved ''foo.json'' \<lparr>Fixed = False, Order = Some []\<rparr> = \<lparr>Fixed = False, Order = Some [''foo.json'']\<rparr>"
    by (simp add: moved_def prevOrder_def ex_normalize)
  have "envOrderBringToFront exReader exCodec ''foo.json'' exDir =
           (None, exDir\<lparr>nodes := AList.update (orderPath exReader)
                             (File (renderOrder \<lparr>Fixed = False, Order = Some [''foo.json'']\<rparr>)) (nodes exDir),
                     log := log exDir @ [Call (ReadFile (orderPath exReader)),
                             Call (WriteFile (orderPath exReader) (renderOrder \<lparr>Fixed = False, Order = Some [''foo.json'']\<rparr>))]\<rparr>)"
    by (rule envOrderBringToFront_writes)
       (simp_all add: r m ex_jsonEncode ex_paths isDirAt_def, simp_all add: exDir_def)
  then show ?thesis by (simp add: ex_paths) (simp add: exDir_def)
qed

lemma ex_ReadDir:
  "fst (os_ReadDir [''rri''] (exStore d)) =
     Inr [\<lparr>Name = ''A.json'', IsDir = False\<rparr>, \<lparr>Name = ''B.json'', IsDir = False\<rparr>,
          \<lparr>Name = ''C.json'', IsDir = False\<rparr>, \<lparr>Name = ''env-order'', IsDir = False\<rparr>]"
  by (simp add: os_ReadDir_def exStore_def isDirAt_def children_def)

lemma ex_isEnvFile:
  "isEnvFile \<lparr>Name = ''A.json'', IsDir = False\<rparr>"
  "isEnvFile \<lparr>Name = ''B.json'', IsDir = False\<rparr>"
  "isEnvFile \<lparr>Name = ''C.json'', IsDir = False\<rparr>"
  "\<not> isEnvFile \<lparr>Name = ''env-order'', IsDir = False\<rparr>"
  by (simp_all add: isEnvFile_def HasSuffix_def envOrderFileName_def)

lemma ex_ordered_BA:
  "ordered [''B.json'', ''A.json'']
     [\<lparr>Name = ''A.json'', IsDir = False\<rparr>, \<lparr>Name = ''B.json'', IsDir = False\<rparr>,
      \<lparr>Name = ''C.json'', IsDir = False\<rparr>]
   = [\<lparr>Name = ''B.json'', IsDir = False\<rparr>, \<lparr>Name = ''A.json'', IsDir = False\<rparr>,
      \<lparr>Name = ''C.json'', IsDir = False\<rparr>]"
  by (simp add: ordered_def orderLess_def orderVal_def MaxInt32_def)

lemma ex_listing_BA:
  "fst (GetEnvironmentFiles exReader exCodec (exStore exOrderBA)) =
     Inr [\<lparr>Name = ''B.json'', IsDir = False\<rparr>, \<lparr>Name = ''A.json'', IsDir = False\<rparr>,
          \<lparr>Name = ''C.json'', IsDir = False\<rparr>]"
proof -
  have r: "fst (fst (readEnvOrder exReader exCodec (exStore exOrderBA)))
             = \<lparr>Fixed = False, Order = Some [''B.json'', ''A.json'']\<rparr>"
    by (rule ex_store_order [OF ex_decode(1)])
  show ?thesis
    by (simp add: GetEnvironmentFiles_eq ex_paths ex_ReadDir ex_isEnvFile r prevOrder_def ex_ordered_BA)
qed

lemma ex_big_decode: "json_Unmarshal exBigCodec ''big'' = Inr \<lparr>Fixed = False, Order = Some exBigOrder\<rparr>"
  by (simp add: json_Unmarshal_def exBigCodec_def)

lemma ex_big_rank:
  "orderVal (fillOrderMap 0 exBigOrder Map.empty) \<lparr>Name = ''C.json'', IsDir = False\<rparr> = 2147483648"
  "orderVal (fillOrderMap 0 exBigOrder Map.empty) \<lparr>Name = ''B.json'', IsDir = False\<rparr> = 2147483647"
proof -
  show "orderVal (fillOrderMap 0 exBigOrder Map.empty) \<lparr>Name = ''C.json'', IsDir = False\<rparr> = 2147483648"
    by (simp add: orderVal_def exBigOrder_def fillOrderMap_append)
  have "''B.json'' \<notin> set exBigOrder" by (simp add: exBigOrder_def)
  then show "orderVal (fillOrderMap 0 exBigOrder Map.empty) \<lparr>Name = ''B.json'', IsDir = False\<rparr> = 2147483647"
    using orderVal_absent [of "\<lparr>Name = ''B.json'', IsDir = False\<rparr>" exBigOrder]
    by (simp add: MaxInt32_def)
qed

lemma ex_corrupt: "json_Unmarshal exCodec ''not json'' = Inl (Ext ''invalid character'')"
  by (simp add: json_Unmarshal_def exCodec_def exDocs_def renderOrder_def)

section \<open>The claims\<close>

text \<open>
  Claim C1. The record file is missing and a capture handler is given. If the handler
  fails, its error is returned and the world is \<open>asked e envName w\<close>: the files are
  those of \<open>w\<close>, and the log has grown by the look for the file, the prompt and the call
  of the handler only, so no directory was made, no record and no ordering file written.
  If the handler succeeds, the call returns no error and the captured value, whatever
  the attempt to save does (\<open>w4\<close>); the final world is the one the move to the front
  leaves, started on \<open>w4\<close>, and its log holds the read of the ordering file, so the
  update was attempted. When making the directory fails, nothing more is tried and the
  warning is printed; when the write of the record fails, the warning is the last line of
  the attempt.
\<close>

theorem capture_of_a_missing_record:
  assumes "fst (isFile (getEnvFilePath e envName) w) = Inr False"
  shows "(\<forall>err env'. h envName env = (Some err, env') \<longrightarrow>
            createOrReadEnvironment e c envName env (Some h) w = ((Some err, env'), asked e envName w))
       \<and> (\<forall>env'. h envName env = (None, env') \<longrightarrow>
            (let w4 = saveCaptured e c (getEnvFilePath e envName) env' (keySourceOf e) (asked e envName w);
                 w5 = snd (envOrderBringToFront e c envName w4)
             in createOrReadEnvironment e c envName env (Some h) w = ((None, env'), w5)
              \<and> Call (ReadFile (Join (dir e) envOrderFileName)) \<in> set (log w5)
              \<and> (\<forall>err. fst (os_MkdirAll (dir e) (asked e envName w)) = Some err \<longrightarrow>
                    w4 = (asked e envName w)
                           \<lparr>log := log (asked e envName w) @
                              [Call (MkdirAll (dir e)),
                               warning err]\<rparr>)
              \<and> (\<forall>err. fst (os_MkdirAll (dir e) (asked e envName w)) = None \<and>
                    fst (jcrypt_MarshalToFile c (getEnvFilePath e envName) env' (keySourceOf e)
                           (snd (os_MkdirAll (dir e) (asked e envName w)))) = Some err \<longrightarrow>
                    last (log w4) = warning err)))"
  using createOrRead_capture_fails [OF assms] createOrRead_capture_ok [OF assms]
  by (simp add: Let_def envOrderBringToFront_reads saveCaptured_mkdir_fails saveCaptured_write_fails)

text \<open>
  A store whose directory cannot be made: the capture succeeds all the same, the warning
  is printed, the ordering file is read; and a handler that fails.
\<close>

theorem capture_of_a_missing_record_witness:
  "fst (isFile (getEnvFilePath exReader ''dev'') exNoMkdir) = Inr False
   \<and> fst (createOrReadEnvironment exReader exCodec ''dev'' ''old'' (Some (\<lambda>envName env. (None, ''captured''))) exNoMkdir)
       = (None, ''captured'')
   \<and> saveCaptured exReader exCodec [''rri'', ''dev.json''] ''captured'' (Inr []) (asked exReader ''dev'' exNoMkdir)
       = (asked exReader ''dev'' exNoMkdir)
           \<lparr>log := log (asked exReader ''dev'' exNoMkdir) @
              [Call (MkdirAll [''rri'']), warning (Ext ''permission denied'')]\<rparr>
   \<and> Call (ReadFile [''rri'', ''env-order''])
       \<in> set (log (snd (createOrReadEnvironment exReader exCodec ''dev'' ''old''
                          (Some (\<lambda>envName env. (None, ''captured''))) exNoMkdir)))
   \<and> createOrReadEnvironment exReader exCodec ''dev'' ''old'' (Some (\<lambda>envName env. (Some (Ext ''cancelled''), env))) exNoMkdir
       = ((Some (Ext ''cancelled''), ''old''), asked exReader ''dev'' exNoMkdir)"
proof -
  have h: "fst (isFile (getEnvFilePath exReader ''dev'') exNoMkdir) = Inr False"
    by (simp add: ex_paths ex_isFile_missing_denied)
  note ok = capture_of_a_missing_record [OF h, of "\<lambda>envName env. (None, ''captured'')" "''old''" exCodec]
  note ko = capture_of_a_missing_record [OF h, of "\<lambda>envName env. (Some (Ext ''cancelled''), env)" "''old''" exCodec]
  have saved: "saveCaptured exReader exCodec [''rri'', ''dev.json''] ''captured'' (Inr []) (asked exReader ''dev'' exNoMkdir)
       = (asked exReader ''dev'' exNoMkdir)
           \<lparr>log := log (asked exReader ''dev'' exNoMkdir) @
              [Call (MkdirAll [''rri'']), warning (Ext ''permission denied'')]\<rparr>"
    using ok ex_mkdir_denied by (simp add: Let_def ex_paths)
  show ?thesis
    using h saved ok ko
    by (simp add: Let_def ex_paths)
qed

text \<open>
  Claim C2, for an order list of at most \<open>MaxInt32\<close> entries. When the directory can be
  read and the order list is not empty, the listing is the record files of the directory
  (same entries, same number of each), sorted by their value in the order map, and
  entries of equal value keep the order of the directory. The value of a name of the
  order list is its last index there. The entries whose name is not in the order list
  come after all the others, in the order of the directory. Listing again gives the same
  list.
\<close>

theorem listing_order:
  assumes rd: "fst (os_ReadDir (dir e) w) = Inr files"
    and ord: "Order (fst (fst (readEnvOrder e c w))) = Some ord"
    and ne: "ord \<noteq> []"
    and small: "length ord \<le> MaxInt32"
  shows "\<exists>res. fst (GetEnvironmentFiles e c w) = Inr res
       \<and> mset res = mset (filter isEnvFile files)
       \<and> sorted (map (orderVal (fillOrderMap 0 ord Map.empty)) res)
       \<and> (\<forall>k. filter (\<lambda>fi. orderVal (fillOrderMap 0 ord Map.empty) fi = k) res
              = filter (\<lambda>fi. orderVal (fillOrderMap 0 ord Map.empty) fi = k) (filter isEnvFile files))
       \<and> (\<forall>fi. Name fi \<in> set ord \<longrightarrow>
              orderVal (fillOrderMap 0 ord Map.empty) fi < length ord
            \<and> ord ! orderVal (fillOrderMap 0 ord Map.empty) fi = Name fi
            \<and> (\<forall>j. orderVal (fillOrderMap 0 ord Map.empty) fi < j \<and> j < length ord \<longrightarrow> ord ! j \<noteq> Name fi))
       \<and> res = filter (\<lambda>fi. Name fi \<in> set ord) res
               @ filter (\<lambda>fi. Name fi \<notin> set ord) (filter isEnvFile files)
       \<and> fst (GetEnvironmentFiles e c (snd (GetEnvironmentFiles e c w))) = Inr res"
proof -
  let ?m = "fillOrderMap 0 ord Map.empty"
  let ?envFiles = "filter isEnvFile files"
  let ?res = "sort_key (orderVal ?m) ?envFiles"
  have po: "prevOrder (fst (fst (readEnvOrder e c w))) = ord" using ord by (simp add: prevOrder_def)
  have res: "fst (GetEnvironmentFiles e c w) = Inr ?res"
    using ne by (simp add: GetEnvironmentFiles_eq rd po ordered_def SliceStable_sort_key)
  have stable: "filter (\<lambda>fi. orderVal ?m fi = k) ?res = filter (\<lambda>fi. orderVal ?m fi = k) ?envFiles" for k
    by (rule sort_key_stable)
  have lt: "orderVal ?m fi < MaxInt32" if "Name fi \<in> set ord" for fi
    using orderVal_present [OF that] small by simp
  have split: "?res = filter (\<lambda>fi. Name fi \<in> set ord) ?res @ filter (\<lambda>fi. Name fi \<notin> set ord) ?res"
    by (rule sorted_split [where f = "orderVal ?m" and M = MaxInt32])
       (simp_all add: lt orderVal_absent)
  have absent: "(Name fi \<notin> set ord) = (orderVal ?m fi = MaxInt32)" for fi
    using lt [of fi] orderVal_absent [of fi ord] by auto
  have "filter (\<lambda>fi. Name fi \<notin> set ord) ?res = filter (\<lambda>fi. Name fi \<notin> set ord) ?envFiles"
    unfolding absent by (rule sort_key_stable)
  with split have split': "?res = filter (\<lambda>fi. Name fi \<in> set ord) ?res @ filter (\<lambda>fi. Name fi \<notin> set ord) ?envFiles"
    by simp
  show ?thesis
    apply (rule exI [of _ ?res])
    apply (intro conjI allI impI)
            apply (rule res)
           apply simp
          apply (rule sorted_sort_key)
         apply (rule stable)
        apply (simp add: orderVal_present)
       apply (simp add: orderVal_present)
      apply (simp add: orderVal_present)
     apply (rule split')
    apply (simp add: GetEnvironmentFiles_again res)
    done
qed

text \<open>
  Order list B, A and the files A, B, C: the listing is B, A, C, and so is the next one.
\<close>

theorem listing_order_witness:
  "fst (os_ReadDir (dir exReader) (exStore exOrderBA)) =
     Inr [\<lparr>Name = ''A.json'', IsDir = False\<rparr>, \<lparr>Name = ''B.json'', IsDir = False\<rparr>,
          \<lparr>Name = ''C.json'', IsDir = False\<rparr>, \<lparr>Name = ''env-order'', IsDir = False\<rparr>]
   \<and> Order (fst (fst (readEnvOrder exReader exCodec (exStore exOrderBA)))) = Some [''B.json'', ''A.json'']
   \<and> [''B.json'', ''A.json''] \<noteq> []
   \<and> length [''B.json'', ''A.json''] \<le> MaxInt32
   \<and> fst (GetEnvironmentFiles exReader exCodec (exStore exOrderBA)) =
       Inr [\<lparr>Name = ''B.json'', IsDir = False\<rparr>, \<lparr>Name = ''A.json'', IsDir = False\<rparr>,
            \<lparr>Name = ''C.json'', IsDir = False\<rparr>]
   \<and> fst (GetEnvironmentFiles exReader exCodec (snd (GetEnvironmentFiles exReader exCodec (exStore exOrderBA)))) =
       Inr [\<lparr>Name = ''B.json'', IsDir = False\<rparr>, \<lparr>Name = ''A.json'', IsDir = False\<rparr>,
            \<lparr>Name = ''C.json'', IsDir = False\<rparr>]"
proof -
  have h1: "fst (os_ReadDir (dir exReader) (exStore exOrderBA)) =
     Inr [\<lparr>Name = ''A.json'', IsDir = False\<rparr>, \<lparr>Name = ''B.json'', IsDir = False\<rparr>,
          \<lparr>Name = ''C.json'', IsDir = False\<rparr>, \<lparr>Name = ''env-order'', IsDir = False\<rparr>]"
    by (simp add: ex_paths ex_ReadDir)
  have h2: "Order (fst (fst (readEnvOrder exReader exCodec (exStore exOrderBA)))) = Some [''B.json'', ''A.json'']"
    by (simp add: ex_store_order [OF ex_decode(1)])
  have h3: "[''B.json'', ''A.json''] \<noteq> []" by simp
  have h4: "length [''B.json'', ''A.json''] \<le> MaxInt32" by (simp add: MaxInt32_def)
  from listing_order [OF h1 h2 h3 h4] obtain res where
    res: "fst (GetEnvironmentFiles exReader exCodec (exStore exOrderBA)) = Inr res"
    and again: "fst (GetEnvironmentFiles exReader exCodec (snd (GetEnvironmentFiles exReader exCodec (exStore exOrderBA)))) = Inr res"
    by blast
  from res have "res = [\<lparr>Name = ''B.json'', IsDir = False\<rparr>, \<lparr>Name = ''A.json'', IsDir = False\<rparr>,
            \<lparr>Name = ''C.json'', IsDir = False\<rparr>]"
    by (simp add: ex_listing_BA)
  with res again h1 h2 h3 h4 show ?thesis by simp
qed

text \<open>
  Without the bound the entries that are not in the order list need not come last. An
  index beyond \<open>MaxInt32\<close> is greater than the value \<open>MaxInt32\<close> that the code gives to a
  name it does not find: C is the last of 2147483649 names, B is not among them, and B
  is listed before C.
\<close>

theorem listing_order_counterexample:
  "Order (fst (fst (readEnvOrder exReader exBigCodec exBigStore))) = Some exBigOrder
   \<and> exBigOrder \<noteq> []
   \<and> ''C.json'' \<in> set exBigOrder
   \<and> ''B.json'' \<notin> set exBigOrder
   \<and> fst (GetEnvironmentFiles exReader exBigCodec exBigStore) =
       Inr [\<lparr>Name = ''B.json'', IsDir = False\<rparr>, \<lparr>Name = ''C.json'', IsDir = False\<rparr>]"
proof -
  have r: "fst (fst (readEnvOrder exReader exBigCodec exBigStore)) = \<lparr>Fixed = False, Order = Some exBigOrder\<rparr>"
    by (rule readEnvOrder_held [OF _ _ ex_big_decode]) (simp_all add: ex_paths exBigStore_def)
  have ne: "exBigOrder \<noteq> []" by (simp add: exBigOrder_def)
  have d: "fst (os_ReadDir [''rri''] exBigStore) =
     Inr [\<lparr>Name = ''B.json'', IsDir = False\<rparr>, \<lparr>Name = ''C.json'', IsDir = False\<rparr>,
          \<lparr>Name = ''env-order'', IsDir = False\<rparr>]"
    by (simp add: os_ReadDir_def exBigStore_def isDirAt_def children_def)
  have s: "ordered exBigOrder [\<lparr>Name = ''B.json'', IsDir = False\<rparr>, \<lparr>Name = ''C.json'', IsDir = False\<rparr>]
     = [\<lparr>Name = ''B.json'', IsDir = False\<rparr>, \<lparr>Name = ''C.json'', IsDir = False\<rparr>]"
    by (simp add: ordered_def ne orderLess_def ex_big_rank)
  have "fst (GetEnvironmentFiles exReader exBigCodec exBigStore) =
       Inr [\<lparr>Name = ''B.json'', IsDir = False\<rparr>, \<lparr>Name = ''C.json'', IsDir = False\<rparr>]"
    by (simp add: GetEnvironmentFiles_eq ex_paths d ex_isEnvFile r prevOrder_def s)
  then show ?thesis using ne by (simp add: r) (simp add: exBigOrder_def)
qed

text \<open>
  Claim C3, with the part on duplicates as the code has it. When the order is not fixed,
  the update writes the metadata it read with the order list replaced by the normalized
  name followed by the previous entries other than that name, in their order; the fixed
  flag is the one read. The name occurs once in the new list; the new list has no
  duplicates if the previous one had none; a name that was not in the list is put in
  front of it unchanged. If the write succeeds the ordering file holds the encoding of
  that metadata, and if the codec reads the encoding back, the ordering file holds the
  same after a second update with the same name.
\<close>

theorem bring_to_front_order:
  assumes "\<not> Fixed (fst (fst (readEnvOrder e c w)))"
  shows "let order = fst (fst (readEnvOrder e c w));
             front = normalizeName name;
             new = order\<lparr>Order := Some (front # filter (\<lambda>env. env \<noteq> front) (prevOrder order))\<rparr>;
             w' = snd (envOrderBringToFront e c name w)
         in envOrderBringToFront e c name w =
              writeEnvOrder e c new (w\<lparr>log := log w @ [Call (ReadFile (orderPath e))]\<rparr>)
          \<and> Fixed new = Fixed order
          \<and> count_list (prevOrder new) front = 1
          \<and> (distinct (prevOrder order) \<longrightarrow> distinct (prevOrder new))
          \<and> (front \<notin> set (prevOrder order) \<longrightarrow> prevOrder new = front # prevOrder order)
          \<and> (\<forall>d. fst (envOrderBringToFront e c name w) = None \<and> jsonEncode c new = Inr d \<longrightarrow>
                 map_of (nodes w') (orderPath e) = Some (File d))
          \<and> (\<forall>d. fst (envOrderBringToFront e c name w) = None \<and> jsonEncode c new = Inr d \<and>
                 json_Unmarshal c d = Inr new \<longrightarrow>
                 map_of (nodes (snd (envOrderBringToFront e c name w'))) (orderPath e) = Some (File d))"
proof -
  let ?order = "fst (fst (readEnvOrder e c w))"
  have new: "?order\<lparr>Order := Some (normalizeName name #
               filter (\<lambda>env. env \<noteq> normalizeName name) (prevOrder ?order))\<rparr> = moved name ?order"
    by (simp add: moved_def)
  have wr: "envOrderBringToFront e c name w =
              writeEnvOrder e c (moved name ?order) (w\<lparr>log := log w @ [Call (ReadFile (orderPath e))]\<rparr>)"
    by (rule envOrderBringToFront_moved [OF assms])
  have persisted: "map_of (nodes (snd (envOrderBringToFront e c name w))) (orderPath e) = Some (File d)"
    if "fst (envOrderBringToFront e c name w) = None" "jsonEncode c (moved name ?order) = Inr d" for d
    using that unfolding wr by (rule writeEnvOrder_ok)
  have twice: "map_of (nodes (snd (envOrderBringToFront e c name (snd (envOrderBringToFront e c name w)))))
                 (orderPath e) = Some (File d)"
    if "fst (envOrderBringToFront e c name w) = None" "jsonEncode c (moved name ?order) = Inr d"
       "json_Unmarshal c d = Inr (moved name ?order)" for d
    using assms that by (rule bring_twice)
  show ?thesis
    unfolding Let_def new
    using wr persisted twice
    by (auto simp: prevOrder_moved count_list_filter_neq filter_id_conv)
qed

text \<open>
  Order list B, A and the name A: the ordering file holds A, B after one update and
  after two.
\<close>

theorem bring_to_front_order_witness:
  "\<not> Fixed (fst (fst (readEnvOrder exReader exCodec (exStore exOrderBA))))
   \<and> envOrderBringToFront exReader exCodec ''A'' (exStore exOrderBA) =
       writeEnvOrder exReader exCodec \<lparr>Fixed = False, Order = Some [''A.json'', ''B.json'']\<rparr>
         ((exStore exOrderBA)\<lparr>log := [Call (ReadFile [''rri'', ''env-order''])]\<rparr>)
   \<and> fst (envOrderBringToFront exReader exCodec ''A'' (exStore exOrderBA)) = None
   \<and> map_of (nodes (snd (envOrderBringToFront exReader exCodec ''A'' (exStore exOrderBA))))
        [''rri'', ''env-order''] = Some (File exOrderAB)
   \<and> map_of (nodes (snd (envOrderBringToFront exReader exCodec ''A''
                           (snd (envOrderBringToFront exReader exCodec ''A'' (exStore exOrderBA))))))
        [''rri'', ''env-order''] = Some (File exOrderAB)"
proof -
  have r: "fst (fst (readEnvOrder exReader exCodec (exStore exOrderBA)))
             = \<lparr>Fixed = False, Order = Some [''B.json'', ''A.json'']\<rparr>"
    by (rule ex_store_order [OF ex_decode(1)])
  have h: "\<not> Fixed (fst (fst (readEnvOrder exReader exCodec (exStore exOrderBA))))"
    by (simp add: r)
  have ok: "fst (envOrderBringToFront exReader exCodec ''A'' (exStore exOrderBA)) = None"
    using ex_store_update [OF ex_decode(1), of "''A''"] by simp
  have enc: "jsonEncode exCodec \<lparr>Fixed = False, Order = Some [''A.json'', ''B.json'']\<rparr> = Inr exOrderAB"
    by (rule ex_encode)
  have l: "(exStore exOrderBA)\<lparr>log := log (exStore exOrderBA) @ [Call (ReadFile [''rri'', ''env-order''])]\<rparr>
         = (exStore exOrderBA)\<lparr>log := [Call (ReadFile [''rri'', ''env-order''])]\<rparr>"
    by (simp add: exStore_def)
  have nw: "(fst (fst (readEnvOrder exReader exCodec (exStore exOrderBA))))
              \<lparr>Order := Some (normalizeName ''A'' # filter (\<lambda>env. env \<noteq> normalizeName ''A'')
                 (prevOrder (fst (fst (readEnvOrder exReader exCodec (exStore exOrderBA))))))\<rparr>
            = \<lparr>Fixed = False, Order = Some [''A.json'', ''B.json'']\<rparr>"
    by (simp add: r ex_normalize prevOrder_def)
  note t = bring_to_front_order [OF h, of "''A''", unfolded Let_def nw]
  note c1 = t [THEN conjunct1]
  note c6 = t [THEN conjunct2, THEN conjunct2, THEN conjunct2, THEN conjunct2, THEN conjunct2,
      THEN conjunct1, rule_format, of exOrderAB]
  note c7 = t [THEN conjunct2, THEN conjunct2, THEN conjunct2, THEN conjunct2, THEN conjunct2,
      THEN conjunct2, rule_format, of exOrderAB]
  have once: "map_of (nodes (snd (envOrderBringToFront exReader exCodec ''A'' (exStore exOrderBA))))
        [''rri'', ''env-order''] = Some (File exOrderAB)"
    using c6 ok enc by (simp add: ex_paths)
  have twice: "map_of (nodes (snd (envOrderBringToFront exReader exCodec ''A''
                           (snd (envOrderBringToFront exReader exCodec ''A'' (exStore exOrderBA))))))
        [''rri'', ''env-order''] = Some (File exOrderAB)"
    using c7 ok enc ex_decode(2) by (simp add: ex_paths)
  have first: "envOrderBringToFront exReader exCodec ''A'' (exStore exOrderBA) =
       writeEnvOrder exReader exCodec \<lparr>Fixed = False, Order = Some [''A.json'', ''B.json'']\<rparr>
         ((exStore exOrderBA)\<lparr>log := [Call (ReadFile [''rri'', ''env-order''])]\<rparr>)"
    using c1 by (simp add: ex_paths l)
  show ?thesis
    by (intro conjI h first ok once twice)
qed

text \<open>
  A previous order list with a duplicate keeps it: from x, x the update with y writes
  y, x, x.
\<close>

theorem bring_to_front_order_counterexample:
  "\<not> Fixed (fst (fst (readEnvOrder exReader exCodec (exStore exOrderDup))))
   \<and> fst (fst (readEnvOrder exReader exCodec
                 (snd (envOrderBringToFront exReader exCodec ''y'' (exStore exOrderDup)))))
       = \<lparr>Fixed = False, Order = Some [''y.json'', ''x.json'', ''x.json'']\<rparr>
   \<and> \<not> distinct [''y.json'', ''x.json'', ''x.json'']"
proof -
  have r: "fst (fst (readEnvOrder exReader exCodec (exStore exOrderDup)))
             = \<lparr>Fixed = False, Order = Some [''x.json'', ''x.json'']\<rparr>"
    by (rule ex_store_order [OF ex_decode(4)])
  have u: "envOrderBringToFront exReader exCodec ''y'' (exStore exOrderDup) =
      (None, (exStore exOrderDup)\<lparr>nodes := AList.update [''rri'', ''env-order'']
                 (File (renderOrder \<lparr>Fixed = False, Order = Some [''y.json'', ''x.json'', ''x.json'']\<rparr>))
                 (nodes (exStore exOrderDup)),
               log := [Call (ReadFile [''rri'', ''env-order'']),
                       Call (WriteFile [''rri'', ''env-order'']
                         (renderOrder \<lparr>Fixed = False, Order = Some [''y.json'', ''x.json'', ''x.json'']\<rparr>))]\<rparr>)"
    using ex_store_update [OF ex_decode(4), of "''y''"] by (simp add: ex_moved)
  have "fst (fst (readEnvOrder exReader exCodec
                 (snd (envOrderBringToFront exReader exCodec ''y'' (exStore exOrderDup)))))
       = \<lparr>Fixed = False, Order = Some [''y.json'', ''x.json'', ''x.json'']\<rparr>"
    unfolding u
    by (rule readEnvOrder_held [OF _ _ ex_decode_yxx])
       (simp_all add: ex_paths update_conv', simp add: exStore_def)
  then show ?thesis by (simp add: r)
qed

text \<open>
  Claim C4. When the metadata read from the ordering file is fixed, the move to the
  front returns no error and does nothing but read the ordering file; and after any read
  or create-or-read, with or without a capture handler and whatever its outcome, the
  ordering file is the node it was and the metadata read from it is the same.
\<close>

theorem fixed_order_is_frozen:
  assumes "Fixed (fst (fst (readEnvOrder e c w)))"
  shows "envOrderBringToFront e c name w =
           (None, w\<lparr>log := log w @ [Call (ReadFile (Join (dir e) envOrderFileName))]\<rparr>)
       \<and> map_of (nodes (snd (createOrReadEnvironment e c envName env h w))) (Join (dir e) envOrderFileName)
           = map_of (nodes w) (Join (dir e) envOrderFileName)
       \<and> fst (readEnvOrder e c (snd (createOrReadEnvironment e c envName env h w)))
           = fst (readEnvOrder e c w)"
proof -
  note k = createOrRead_keeps_fixed [OF assms, of envName env h]
  have "fst (readEnvOrder e c (snd (createOrReadEnvironment e c envName env h w)))
          = fst (readEnvOrder e c w)"
    using k by (intro fst_readEnvOrder_cong) simp_all
  then show ?thesis
    using k by (simp add: envOrderBringToFront_fixed [OF assms] logEvent_def)
qed

text \<open>
  A store whose ordering file is fixed, and a read of the record A.
\<close>

theorem fixed_order_is_frozen_witness:
  "Fixed (fst (fst (readEnvOrder exReader exCodec (exStore exOrderFixed))))
   \<and> envOrderBringToFront exReader exCodec ''A'' (exStore exOrderFixed)
       = (None, (exStore exOrderFixed)\<lparr>log := [Call (ReadFile [''rri'', ''env-order''])]\<rparr>)
   \<and> map_of (nodes (snd (createOrReadEnvironment exReader exCodec ''A'' ''old'' None (exStore exOrderFixed))))
        [''rri'', ''env-order''] = Some (File exOrderFixed)
   \<and> fst (readEnvOrder exReader exCodec
            (snd (createOrReadEnvironment exReader exCodec ''A'' ''old'' None (exStore exOrderFixed))))
       = (\<lparr>Fixed = True, Order = Some [''B.json'', ''A.json'']\<rparr>, None)"
proof -
  have r: "fst (fst (readEnvOrder exReader exCodec (exStore exOrderFixed)))
             = \<lparr>Fixed = True, Order = Some [''B.json'', ''A.json'']\<rparr>"
    by (rule ex_store_order [OF ex_decode(3)])
  have h: "Fixed (fst (fst (readEnvOrder exReader exCodec (exStore exOrderFixed))))"
    by (simp add: r)
  have p: "fst (readEnvOrder exReader exCodec (exStore exOrderFixed))
             = (\<lparr>Fixed = True, Order = Some [''B.json'', ''A.json'']\<rparr>, None)"
    using r readEnvOrder_no_error [of exReader exCodec "exStore exOrderFixed"]
    by (metis prod.collapse)
  show ?thesis
    using h fixed_order_is_frozen [OF h, of "''A''" "''A''" "''old''" None]
    by (simp add: ex_paths p) (simp add: exStore_def)
qed

text \<open>
  Claim C5. Reading the ordering metadata never returns an error. It gives a metadata
  that is not fixed and has an empty order list when the ordering file is missing, when
  it is empty, when its content does not parse, and when it cannot be read at all. The
  listing of a store is the same with an ordering file that does not parse as without an
  ordering file.
\<close>

theorem ordering_file_tolerant:
  "snd (fst (readEnvOrder e c w)) = None
   \<and> (map_of (nodes w) (orderPath e) = None \<longrightarrow>
        fst (fst (readEnvOrder e c w)) = \<lparr>Fixed = False, Order = Some []\<rparr>)
   \<and> (map_of (nodes w) (orderPath e) = Some (File []) \<longrightarrow>
        fst (fst (readEnvOrder e c w)) = \<lparr>Fixed = False, Order = Some []\<rparr>)
   \<and> (\<forall>d err. map_of (nodes w) (orderPath e) = Some (File d) \<and> json_Unmarshal c d = Inl err \<longrightarrow>
        fst (fst (readEnvOrder e c w)) = \<lparr>Fixed = False, Order = Some []\<rparr>)
   \<and> (\<forall>err. fst (os_ReadFile (orderPath e) w) = Inl err \<longrightarrow>
        fst (fst (readEnvOrder e c w)) = \<lparr>Fixed = False, Order = Some []\<rparr>)
   \<and> (\<forall>d err. json_Unmarshal c d = Inl err \<longrightarrow>
        fst (GetEnvironmentFiles e c (w\<lparr>nodes := AList.update (orderPath e) (File d) (nodes w)\<rparr>))
        = fst (GetEnvironmentFiles e c (w\<lparr>nodes := AList.delete (orderPath e) (nodes w)\<rparr>)))"
  using readEnvOrder_corrupt [of w e "[]" c, OF _ json_Unmarshal_empty]
  by (auto simp: readEnvOrder_no_error readEnvOrder_missing readEnvOrder_corrupt readEnvOrder_default
        intro: listing_corrupt_or_absent)

text \<open>
  A store without ordering file, one with an empty ordering file and one with an
  ordering file that is not json.
\<close>

theorem ordering_file_tolerant_witness:
  "map_of (nodes exDir) (orderPath exReader) = None
   \<and> fst (readEnvOrder exReader exCodec exDir) = (\<lparr>Fixed = False, Order = Some []\<rparr>, None)
   \<and> map_of (nodes (exStore [])) (orderPath exReader) = Some (File [])
   \<and> fst (readEnvOrder exReader exCodec (exStore [])) = (\<lparr>Fixed = False, Order = Some []\<rparr>, None)
   \<and> map_of (nodes (exStore ''not json'')) (orderPath exReader) = Some (File ''not json'')
   \<and> json_Unmarshal exCodec ''not json'' = Inl (Ext ''invalid character'')
   \<and> fst (readEnvOrder exReader exCodec (exStore ''not json'')) = (\<lparr>Fixed = False, Order = Some []\<rparr>, None)
   \<and> fst (GetEnvironmentFiles exReader exCodec (exStore ''not json''))
       = fst (GetEnvironmentFiles exReader exCodec
               ((exStore ''not json'')\<lparr>nodes := AList.delete [''rri'', ''env-order''] (nodes (exStore ''not json''))\<rparr>))"
proof -
  have m: "map_of (nodes exDir) (orderPath exReader) = None"
    by (simp add: ex_paths exDir_def)
  have e: "map_of (nodes (exStore [])) (orderPath exReader) = Some (File [])"
    by (simp add: ex_paths exStore_def)
  have c: "map_of (nodes (exStore ''not json'')) (orderPath exReader) = Some (File ''not json'')"
    by (simp add: ex_paths exStore_def)
  note t1 = ordering_file_tolerant [of exReader exCodec exDir]
  note t2 = ordering_file_tolerant [of exReader exCodec "exStore []"]
  note t3 = ordering_file_tolerant [of exReader exCodec "exStore ''not json''"]
  have r1: "fst (readEnvOrder exReader exCodec exDir) = (\<lparr>Fixed = False, Order = Some []\<rparr>, None)"
    using t1 m by (simp add: prod_eq_iff)
  have r2: "fst (readEnvOrder exReader exCodec (exStore [])) = (\<lparr>Fixed = False, Order = Some []\<rparr>, None)"
    using t2 e by (simp add: prod_eq_iff)
  have r3: "fst (readEnvOrder exReader exCodec (exStore ''not json'')) = (\<lparr>Fixed = False, Order = Some []\<rparr>, None)"
    using t3 c ex_corrupt by (auto simp: prod_eq_iff)
  have u: "(exStore ''not json'')\<lparr>nodes := AList.update (orderPath exReader) (File ''not json'') (nodes (exStore ''not json''))\<rparr>
            = exStore ''not json''"
    by (simp add: ex_paths exStore_def)
  have l: "fst (GetEnvironmentFiles exReader exCodec (exStore ''not json''))
       = fst (GetEnvironmentFiles exReader exCodec
               ((exStore ''not json'')\<lparr>nodes := AList.delete [''rri'', ''env-order''] (nodes (exStore ''not json''))\<rparr>))"
    using t3 [THEN conjunct2, THEN conjunct2, THEN conjunct2, THEN conjunct2, THEN conjunct2,
        rule_format, OF ex_corrupt]
    by (simp add: u) (simp add: ex_paths)
  show ?thesis by (intro conjI m r1 e r2 c ex_corrupt r3 l)
qed

text \<open>
  Claim C6 does not hold of the code: the path of a record is found by
  \<^verbatim>\<open>filepath.Join\<close>, which cleans it, and the code does not escape the name (its
  comment says so). The two names below are different and have the same path.
\<close>

theorem getEnvFilePath_collision:
  "''./b'' \<noteq> ''b'' \<and> getEnvFilePath e ''./b'' = getEnvFilePath e ''b''"
  by (simp add: getEnvFilePath_def Join_def)

text \<open>
  In the small store both names are the file b.json.
\<close>

theorem getEnvFilePath_collision_witness:
  "''./b'' \<noteq> ''b''
   \<and> getEnvFilePath exReader ''./b'' = [''rri'', ''b.json'']
   \<and> getEnvFilePath exReader ''b'' = [''rri'', ''b.json'']"
  using getEnvFilePath_collision [of exReader]
  by (simp add: getEnvFilePath_def Join_def exReader_def)

text \<open>
  Claim C7, for the names the code treats as the claim says. When the order is not
  fixed, the entry the update puts in front of the order list is the normalized name.
  Normalizing appends the suffix to a name that does not end in it and leaves a name that
  ends in it as it is. For a name that does not end in the suffix and has no separator,
  the normalized name is the name of the record's file in the store directory.
\<close>

theorem front_entry_name:
  assumes "\<not> Fixed (fst (fst (readEnvOrder e c w)))"
  shows "envOrderBringToFront e c name w =
           writeEnvOrder e c
             ((fst (fst (readEnvOrder e c w)))
                \<lparr>Order := Some (normalizeName name #
                   filter (\<lambda>env. env \<noteq> normalizeName name) (prevOrder (fst (fst (readEnvOrder e c w)))))\<rparr>)
             (w\<lparr>log := log w @ [Call (ReadFile (orderPath e))]\<rparr>)
       \<and> (\<not> HasSuffix name ''.json'' \<longrightarrow> normalizeName name = name @ ''.json'')
       \<and> (HasSuffix name ''.json'' \<longrightarrow> normalizeName name = name)
       \<and> (\<not> HasSuffix name ''.json'' \<and> CHR ''/'' \<notin> set name \<longrightarrow>
            getEnvFilePath e name = dir e @ [normalizeName name])"
  using envOrderBringToFront_moved [OF assms, of name]
  by (auto simp: moved_def normalizeName_def getEnvFilePath_noslash)

text \<open>
  The name A in the small store.
\<close>

theorem front_entry_name_witness:
  "\<not> Fixed (fst (fst (readEnvOrder exReader exCodec (exStore exOrderBA))))
   \<and> envOrderBringToFront exReader exCodec ''A'' (exStore exOrderBA) =
       writeEnvOrder exReader exCodec \<lparr>Fixed = False, Order = Some [''A.json'', ''B.json'']\<rparr>
         ((exStore exOrderBA)\<lparr>log := [Call (ReadFile [''rri'', ''env-order''])]\<rparr>)
   \<and> \<not> HasSuffix ''A'' ''.json''
   \<and> normalizeName ''A'' = ''A.json''
   \<and> HasSuffix ''foo.json'' ''.json''
   \<and> normalizeName ''foo.json'' = ''foo.json''
   \<and> getEnvFilePath exReader ''A'' = [''rri'', ''A.json'']"
proof -
  have r: "fst (fst (readEnvOrder exReader exCodec (exStore exOrderBA)))
             = \<lparr>Fixed = False, Order = Some [''B.json'', ''A.json'']\<rparr>"
    by (rule ex_store_order [OF ex_decode(1)])
  have h: "\<not> Fixed (fst (fst (readEnvOrder exReader exCodec (exStore exOrderBA))))"
    by (simp add: r)
  have l: "(exStore exOrderBA)\<lparr>log := log (exStore exOrderBA) @ [Call (ReadFile [''rri'', ''env-order''])]\<rparr>
         = (exStore exOrderBA)\<lparr>log := [Call (ReadFile [''rri'', ''env-order''])]\<rparr>"
    by (simp add: exStore_def)
  have s: "\<not> HasSuffix ''A'' ''.json''" "HasSuffix ''foo.json'' ''.json''"
    by (simp_all add: HasSuffix_def)
  show ?thesis
    using h s front_entry_name [OF h, of "''A''"] front_entry_name [OF h, of "''foo.json''"]
    by (simp add: r ex_normalize prevOrder_def ex_paths l)
qed

text \<open>
  A name that ends in the suffix already: the record of the name foo.json is the file
  foo.json.json, and the entry written for it is foo.json.
\<close>

theorem front_entry_name_counterexample:
  "getEnvFilePath exReader ''foo.json'' = [''rri'', ''foo.json.json'']
   \<and> fst (fst (readEnvOrder exReader exCodec
                 (snd (envOrderBringToFront exReader exCodec ''foo.json'' exDir))))
       = \<lparr>Fixed = False, Order = Some [''foo.json'']\<rparr>
   \<and> ''foo.json'' \<noteq> ''foo.json.json''"
proof -
  have d: "json_Unmarshal exCodec (renderOrder \<lparr>Fixed = False, Order = Some [''foo.json'']\<rparr>)
     = Inr \<lparr>Fixed = False, Order = Some [''foo.json'']\<rparr>"
    by (simp add: json_Unmarshal_def exCodec_def exDocs_def renderOrder_def)
  have "fst (fst (readEnvOrder exReader exCodec
                 (snd (envOrderBringToFront exReader exCodec ''foo.json'' exDir))))
       = \<lparr>Fixed = False, Order = Some [''foo.json'']\<rparr>"
    unfolding ex_dir_update
    by (rule readEnvOrder_held [OF _ _ d]) (simp_all add: ex_paths)
  then show ?thesis by (simp add: ex_paths)
qed

text \<open>
  Claim C8. When the record file is not there, a read without capture handler returns
  the error that the environment was not found, leaves the value as it was, and does
  nothing to the world but look for the file: the files are the same and the log has
  grown by that one call.
\<close>

theorem ReadEnvironment_not_found:
  assumes "fst (isFile (getEnvFilePath e envName) w) = Inr False"
  shows "ReadEnvironment e c envName env w =
          ((Some (Errorf ''environment %q not found'' [envName]), env),
           w\<lparr>log := log w @ [Call (Stat (getEnvFilePath e envName))]\<rparr>)"
  using isFile_eq [OF assms]
  by (simp add: ReadEnvironment_def createOrReadEnvironment_def logEvent_def)

text \<open>
  An empty file system.
\<close>

theorem ReadEnvironment_not_found_witness:
  "fst (isFile (getEnvFilePath exReader ''dev'') exEmpty) = Inr False
   \<and> ReadEnvironment exReader exCodec ''dev'' ''old'' exEmpty =
       ((Some (Errorf ''environment %q not found'' [''dev'']), ''old''),
        exEmpty\<lparr>log := [Call (Stat [''rri'', ''dev.json''])]\<rparr>)"
proof -
  have h: "fst (isFile (getEnvFilePath exReader ''dev'') exEmpty) = Inr False"
    by (simp add: ex_paths ex_isFile_missing)
  show ?thesis
    using h ReadEnvironment_not_found [OF h, of exCodec "''old''"]
    by (simp add: ex_paths exEmpty_def)
qed

text \<open>
  Claim C9. When the record file is not there, the delete returns the error that the
  environment does not exist and has only looked for the file. When the delete returns
  no error, the file system is the one before without the record file: the record file
  is gone, every other path is what it was, and the metadata read from the ordering file
  is the same, so a name it listed is still listed.
\<close>

theorem delete_removes_only_the_record:
  "(fst (isFile (getEnvFilePath e envName) w) = Inr False \<longrightarrow>
      DeleteEnvironment e envName w =
        (Some (Errorf ''environment %q does not exist'' [envName]),
         w\<lparr>log := log w @ [Call (Stat (getEnvFilePath e envName))]\<rparr>))
   \<and> (fst (DeleteEnvironment e envName w) = None \<longrightarrow>
        nodes (snd (DeleteEnvironment e envName w)) = AList.delete (getEnvFilePath e envName) (nodes w)
      \<and> map_of (nodes (snd (DeleteEnvironment e envName w))) (getEnvFilePath e envName) = None
      \<and> (\<forall>p. p \<noteq> getEnvFilePath e envName \<longrightarrow>
            map_of (nodes (snd (DeleteEnvironment e envName w))) p = map_of (nodes w) p)
      \<and> fst (readEnvOrder e c (snd (DeleteEnvironment e envName w))) = fst (readEnvOrder e c w))"
proof (intro conjI impI allI)
  assume "fst (isFile (getEnvFilePath e envName) w) = Inr False"
  then show "DeleteEnvironment e envName w =
        (Some (Errorf ''environment %q does not exist'' [envName]),
         w\<lparr>log := log w @ [Call (Stat (getEnvFilePath e envName))]\<rparr>)"
    by (rule DeleteEnvironment_missing)
next
  assume ok: "fst (DeleteEnvironment e envName w) = None"
  show "nodes (snd (DeleteEnvironment e envName w)) = AList.delete (getEnvFilePath e envName) (nodes w)"
    by (rule DeleteEnvironment_ok(1) [OF ok])
next
  assume ok: "fst (DeleteEnvironment e envName w) = None"
  show "map_of (nodes (snd (DeleteEnvironment e envName w))) (getEnvFilePath e envName) = None"
    by (simp add: DeleteEnvironment_ok(1) [OF ok] delete_conv')
next
  fix p
  assume ok: "fst (DeleteEnvironment e envName w) = None" and "p \<noteq> getEnvFilePath e envName"
  then show "map_of (nodes (snd (DeleteEnvironment e envName w))) p = map_of (nodes w) p"
    by (simp add: DeleteEnvironment_ok(1) [OF ok] delete_conv')
next
  assume ok: "fst (DeleteEnvironment e envName w) = None"
  show "fst (readEnvOrder e c (snd (DeleteEnvironment e envName w))) = fst (readEnvOrder e c w)"
    using getEnvFilePath_ne_orderPath [of e envName]
    by (intro fst_readEnvOrder_cong DeleteEnvironment_ok(2) [OF ok])
       (simp add: DeleteEnvironment_ok(1) [OF ok] delete_conv')
qed

text \<open>
  A delete in an empty file system, and the delete of A in the small store, whose order
  list still names A afterwards.
\<close>

theorem delete_removes_only_the_record_witness:
  "fst (isFile (getEnvFilePath exReader ''dev'') exEmpty) = Inr False
   \<and> DeleteEnvironment exReader ''dev'' exEmpty =
       (Some (Errorf ''environment %q does not exist'' [''dev'']),
        exEmpty\<lparr>log := [Call (Stat [''rri'', ''dev.json''])]\<rparr>)
   \<and> fst (DeleteEnvironment exReader ''A'' (exStore exOrderBA)) = None
   \<and> map_of (nodes (snd (DeleteEnvironment exReader ''A'' (exStore exOrderBA)))) [''rri'', ''A.json''] = None
   \<and> map_of (nodes (snd (DeleteEnvironment exReader ''A'' (exStore exOrderBA)))) [''rri'', ''env-order'']
       = Some (File exOrderBA)
   \<and> fst (fst (readEnvOrder exReader exCodec (snd (DeleteEnvironment exReader ''A'' (exStore exOrderBA)))))
       = \<lparr>Fixed = False, Order = Some [''B.json'', ''A.json'']\<rparr>"
proof -
  have h: "fst (isFile (getEnvFilePath exReader ''dev'') exEmpty) = Inr False"
    by (simp add: ex_paths ex_isFile_missing)
  have k: "fst (DeleteEnvironment exReader ''A'' (exStore exOrderBA)) = None"
    by (simp add: ex_delete_A)
  have r: "fst (fst (readEnvOrder exReader exCodec (exStore exOrderBA)))
             = \<lparr>Fixed = False, Order = Some [''B.json'', ''A.json'']\<rparr>"
    by (rule ex_store_order [OF ex_decode(1)])
  note t1 = delete_removes_only_the_record [where e = exReader and envName = "''dev''" and w = exEmpty
      and c = exCodec, THEN conjunct1, rule_format, OF h]
  note t2 = delete_removes_only_the_record [where e = exReader and envName = "''A''"
      and w = "exStore exOrderBA" and c = exCodec, THEN conjunct2, rule_format, OF k]
  have o: "map_of (nodes (snd (DeleteEnvironment exReader ''A'' (exStore exOrderBA)))) [''rri'', ''env-order'']
       = Some (File exOrderBA)"
    using t2 by (simp add: ex_paths delete_conv') (simp add: exStore_def)
  have a: "map_of (nodes (snd (DeleteEnvironment exReader ''A'' (exStore exOrderBA)))) [''rri'', ''A.json''] = None"
    using t2 by (simp add: ex_paths delete_conv')
  have l: "fst (fst (readEnvOrder exReader exCodec (snd (DeleteEnvironment exReader ''A'' (exStore exOrderBA)))))
       = \<lparr>Fixed = False, Order = Some [''B.json'', ''A.json'']\<rparr>"
    using t2 r by simp
  have m: "DeleteEnvironment exReader ''dev'' exEmpty =
       (Some (Errorf ''environment %q does not exist'' [''dev'']),
        exEmpty\<lparr>log := [Call (Stat [''rri'', ''dev.json''])]\<rparr>)"
    using t1 by (simp add: ex_paths exEmpty_def)
  show ?thesis
    by (intro conjI h m k a o l)
qed

text \<open>
  Claim C10. When the record file is there and is read and decoded without error, and
  when it is not there and the capture handler succeeds, the call returns no error and
  the value; of the move to the front it keeps the world and drops the result, so an
  error of the update never reaches the caller.
\<close>

theorem order_update_error_is_dropped:
  "(fst (isFile (getEnvFilePath e envName) w) = Inr True \<longrightarrow>
      jcrypt_UnmarshalFromFile c (getEnvFilePath e envName) env (keySourceOf e)
        (w\<lparr>log := log w @ [Call (Stat (getEnvFilePath e envName))]\<rparr>) = ((None, env'), w2) \<longrightarrow>
      createOrReadEnvironment e c envName env h w =
        ((None, env'), snd (envOrderBringToFront e c envName w2)))
   \<and> (fst (isFile (getEnvFilePath e envName) w) = Inr False \<longrightarrow>
      g envName env = (None, env') \<longrightarrow>
      createOrReadEnvironment e c envName env (Some g) w =
        ((None, env'),
         snd (envOrderBringToFront e c envName
                (saveCaptured e c (getEnvFilePath e envName) env' (keySourceOf e) (asked e envName w)))))"
proof (intro conjI impI)
  assume a: "fst (isFile (getEnvFilePath e envName) w) = Inr True"
    and b: "jcrypt_UnmarshalFromFile c (getEnvFilePath e envName) env (keySourceOf e)
        (w\<lparr>log := log w @ [Call (Stat (getEnvFilePath e envName))]\<rparr>) = ((None, env'), w2)"
  show "createOrReadEnvironment e c envName env h w =
        ((None, env'), snd (envOrderBringToFront e c envName w2))"
    using b by (simp add: createOrRead_exists [OF a] Let_def logEvent_def)
next
  assume a: "fst (isFile (getEnvFilePath e envName) w) = Inr False"
    and b: "g envName env = (None, env')"
  show "createOrReadEnvironment e c envName env (Some g) w =
        ((None, env'),
         snd (envOrderBringToFront e c envName
                (saveCaptured e c (getEnvFilePath e envName) env' (keySourceOf e) (asked e envName w))))"
    by (rule createOrRead_capture_ok [where h = g, OF a b])
qed

text \<open>
  A store where every write of the ordering file is refused: the update returns the
  error, the read of A returns none. And the capture in a store whose directory cannot be
  made.
\<close>

theorem order_update_error_is_dropped_witness:
  "fst (isFile (getEnvFilePath exReader ''A'') exNoOrderWrite) = Inr True
   \<and> fst (envOrderBringToFront exReader exCodec ''A''
          (exNoOrderWrite\<lparr>log := [Call (Stat [''rri'', ''A.json'']), Call (ReadFile [''rri'', ''A.json''])]\<rparr>))
       = Some (Ext ''permission denied'')
   \<and> fst (createOrReadEnvironment exReader exCodec ''A'' ''old'' None exNoOrderWrite) = (None, ''a'')
   \<and> fst (isFile (getEnvFilePath exReader ''dev'') exNoMkdir) = Inr False
   \<and> fst (createOrReadEnvironment exReader exCodec ''dev'' ''old''
            (Some (\<lambda>envName env. (None, ''captured''))) exNoMkdir) = (None, ''captured'')"
proof -
  have h: "fst (isFile (getEnvFilePath exReader ''A'') exNoOrderWrite) = Inr True"
    by (simp add: ex_paths ex_isFile_A)
  have k: "fst (isFile (getEnvFilePath exReader ''dev'') exNoMkdir) = Inr False"
    by (simp add: ex_paths ex_isFile_missing_denied)
  have u: "jcrypt_UnmarshalFromFile exCodec (getEnvFilePath exReader ''A'') ''old'' (keySourceOf exReader)
     (exNoOrderWrite\<lparr>log := log exNoOrderWrite @ [Call (Stat (getEnvFilePath exReader ''A''))]\<rparr>)
   = ((None, ''a''),
      exNoOrderWrite\<lparr>log := [Call (Stat [''rri'', ''A.json'']), Call (ReadFile [''rri'', ''A.json''])]\<rparr>)"
    by (simp add: ex_paths ex_unmarshal_A)
  note t1 = order_update_error_is_dropped [where e = exReader and envName = "''A''" and w = exNoOrderWrite
      and c = exCodec and env = "''old''" and env' = "''a''" and h = None, THEN conjunct1, rule_format, OF h u]
  note t2 = order_update_error_is_dropped [where e = exReader and envName = "''dev''" and w = exNoMkdir
      and c = exCodec and env = "''old''" and env' = "''captured''"
      and g = "\<lambda>envName env. (None, ''captured'')", THEN conjunct2, rule_format, OF k]
  show ?thesis
    using h k ex_update_refused t1 t2 by simp
qed

end
